theory Spec2Isabelle
  imports Main "HOL-Library.Sublist" "HOL-Library.Multiset"
begin

section \<open>Text primitives of the interpreter\<close>

text \<open>
  The program is a Python script. A Python \<open>str\<close> is modelled as a \<^typ>\<open>string\<close>, one
  \<^typ>\<open>char\<close> per character: the characters are the code points below 256, and the
  library functions below follow CPython 3.11 on such text. Every exception the script
  can meet is a value of \<open>py_error\<close>, carrying its message.
\<close>

datatype py_error = ValueError string | IndexError string | OSError string

abbreviation TAB :: char where "TAB \<equiv> CHR 0x09"
abbreviation LF :: char where "LF \<equiv> CHR 0x0A"
abbreviation CR :: char where "CR \<equiv> CHR 0x0D"

text \<open>
  \<open>repr\<close> of a string: the text between apostrophes, or between double quotes when it
  holds an apostrophe and no double quote; the quote character in use and the backslash
  are escaped, tab, newline and carriage return are written \<open>\t\<close>, \<open>\n\<close>, \<open>\r\<close>, and every other
  character that is not printable (the control characters, U+00A0 and U+00AD) is written
  \<open>\xhh\<close>.
\<close>

definition hex2 :: "nat \<Rightarrow> string" where
  "hex2 n = [''0123456789abcdef'' ! (n div 16), ''0123456789abcdef'' ! (n mod 16)]"

definition repr_char :: "char \<Rightarrow> char \<Rightarrow> string" where
  "repr_char q c =
     (let n = (of_char c :: nat) in
      if c = q \<or> c = CHR 0x5C then [CHR 0x5C, c]
      else if c = TAB then [CHR 0x5C, CHR ''t'']
      else if c = LF then [CHR 0x5C, CHR ''n'']
      else if c = CR then [CHR 0x5C, CHR ''r'']
      else if n < 32 \<or> n = 127 then [CHR 0x5C, CHR ''x''] @ hex2 n
      else if n < 127 then [c]
      else if n < 161 \<or> n = 173 then [CHR 0x5C, CHR ''x''] @ hex2 n
      else [c])"

definition py_repr :: "string \<Rightarrow> string" where
  "py_repr s =
     (let q = (if CHR 0x27 \<in> set s \<and> CHR 0x22 \<notin> set s then CHR 0x22 else CHR 0x27)
      in [q] @ concat (map (repr_char q) s) @ [q])"

text \<open>
  \<open>str.isspace\<close> on one character, the set \<open>str.strip()\<close> removes: the ASCII blanks and
  separators, U+0085 and U+00A0.
\<close>

definition is_space :: "char \<Rightarrow> bool" where
  "is_space c = (c \<in> set [CHR 0x09, CHR 0x0A, CHR 0x0B, CHR 0x0C, CHR 0x0D,
                           CHR 0x1C, CHR 0x1D, CHR 0x1E, CHR 0x1F, CHR 0x20,
                           CHR 0x85, CHR 0xA0])"

definition strip :: "string \<Rightarrow> string" where
  "strip s = rev (dropWhile is_space (rev (dropWhile is_space s)))"

text \<open>
  \<open>str.upper()\<close>. The upper case of a character below 256 can lie beyond 255 (U+00B5 and
  U+00FF) or be two characters (U+00DF gives \<open>SS\<close>), so the result is a list of code
  points; \<open>code_points\<close> gives the code points of a literal.
\<close>

definition upper_points :: "char \<Rightarrow> nat list" where
  "upper_points c =
     (let n = (of_char c :: nat) in
      if 97 \<le> n \<and> n \<le> 122 then [n - 32]
      else if n = 181 then [924]
      else if n = 223 then [83, 83]
      else if 224 \<le> n \<and> n \<le> 254 \<and> n \<noteq> 247 then [n - 32]
      else if n = 255 then [376]
      else [n])"

definition upper :: "string \<Rightarrow> nat list" where
  "upper s = concat (map upper_points s)"

definition code_points :: "string \<Rightarrow> nat list" where
  "code_points s = map of_char s"

text \<open>The operator \<open>sub in s\<close> on strings.\<close>

fun contains :: "'a list \<Rightarrow> 'a list \<Rightarrow> bool" where
  "contains sub [] = (sub = [])"
| "contains sub (c # cs) = (prefix sub (c # cs) \<or> contains sub cs)"

text \<open>
  \<open>s.split(sep)\<close> for a non-empty separator: the text is cut at the leftmost occurrences
  of \<open>sep\<close>, which do not overlap; the result always has at least one piece. Both
  separators of the script, the tab and \<open>__\<close>, are literals, so the \<open>ValueError\<close> of an
  empty separator cannot arise.
\<close>

fun split_on :: "string \<Rightarrow> string \<Rightarrow> string list" where
  "split_on sep [] = [[]]"
| "split_on sep (c # cs) =
     (if prefix sep (c # cs) then [] # split_on sep (drop (length sep - 1) cs)
      else (case split_on sep cs of
              w # ws \<Rightarrow> (c # w) # ws
            | [] \<Rightarrow> [[c]]))"

text \<open>\<open>xs[i]\<close> for a non-negative index.\<close>

definition subscript :: "'a list \<Rightarrow> nat \<Rightarrow> py_error + 'a" where
  "subscript xs i = (if i < length xs then Inr (xs ! i) else Inl (IndexError ''list index out of range''))"

text \<open>\<open>sep.join(pieces)\<close>.\<close>

fun join :: "string \<Rightarrow> string list \<Rightarrow> string" where
  "join sep [] = []"
| "join sep [p] = p"
| "join sep (p # q # ps) = p @ sep @ join sep (q # ps)"

definition digit_value :: "char \<Rightarrow> nat option" where
  "digit_value c = map_of (zip ''0123456789'' [0, 1, 2, 3, 4, 5, 6, 7, 8, 9]) c"

text \<open>\<open>str(n)\<close> for a non-negative integer.\<close>

fun str_nat :: "nat \<Rightarrow> string" where
  "str_nat n =
     (if n < 10 then [''0123456789'' ! n]
      else str_nat (n div 10) @ [''0123456789'' ! (n mod 10)])"

text \<open>
  \<open>int(s)\<close> on a string, base 10. Blanks before the literal are skipped (the six ASCII
  blanks of the C locale, U+0085 and U+00A0; not the separators U+001C to U+001F), then an
  optional sign. The literal may not start with an underscore. \<open>scan_digits\<close> reads the
  run of decimal digits and underscores: two underscores in a row or an underscore at the
  end of the run are refused; it returns the number of digits, their value and the text
  after the run. A run without digits is refused; a run of more than 4300 digits raises
  the \<open>ValueError\<close> of the interpreter's limit, before the text after the run is looked at;
  after the run only blanks may follow. The message of an invalid literal holds the first
  200 characters of the \<open>repr\<close> of the whole string.
\<close>

definition is_int_blank :: "char \<Rightarrow> bool" where
  "is_int_blank c = (c \<in> set [CHR 0x09, CHR 0x0A, CHR 0x0B, CHR 0x0C, CHR 0x0D, CHR 0x20,
                               CHR 0x85, CHR 0xA0])"

fun scan_digits :: "bool \<Rightarrow> nat \<Rightarrow> nat \<Rightarrow> string \<Rightarrow> (nat \<times> nat \<times> string) option" where
  "scan_digits after_underscore digits acc [] =
     (if after_underscore then None else Some (digits, acc, []))"
| "scan_digits after_underscore digits acc (c # cs) =
     (case digit_value c of
        Some d \<Rightarrow> scan_digits False (Suc digits) (10 * acc + d) cs
      | None \<Rightarrow>
          if c = CHR ''_'' then
            (if after_underscore then None else scan_digits True digits acc cs)
          else if after_underscore then None
          else Some (digits, acc, c # cs))"

definition py_int :: "string \<Rightarrow> py_error + int" where
  "py_int s =
     (let invalid = Inl (ValueError (''invalid literal for int() with base 10: '' @
                                     take 200 (py_repr s)));
          s1 = dropWhile is_int_blank s;
          negative = (s1 \<noteq> [] \<and> hd s1 = CHR ''-'');
          s2 = (if s1 \<noteq> [] \<and> (hd s1 = CHR ''-'' \<or> hd s1 = CHR ''+'') then tl s1 else s1)
      in if s2 \<noteq> [] \<and> hd s2 = CHR ''_'' then invalid
         else
           (case scan_digits False 0 0 s2 of
              None \<Rightarrow> invalid
            | Some (digits, n, rest) \<Rightarrow>
                if digits = 0 then invalid
                else if digits > 4300 then
                  Inl (ValueError
                    (''Exceeds the limit (4300 digits) for integer string conversion: value has '' @
                     str_nat digits @
                     '' digits; use sys.set_int_max_str_digits() to increase the limit''))
                else if dropWhile is_int_blank rest \<noteq> [] then invalid
                else Inr (if negative then - int n else int n)))"

section \<open>Regular expression search\<close>

text \<open>
  The pattern of the script is a sequence of single-character items, each a literal or the
  class \<open>[a-f0-9]\<close>, with one group. \<open>match_items\<close> matches a sequence of items at the
  start of the text and returns what follows the match; \<open>re_search\<close> tries every start
  position from the left, as \<open>re.search\<close> does, and returns group 1 of the first match.
\<close>

datatype re_item = Lit char | HexLower

fun item_matches :: "re_item \<Rightarrow> char \<Rightarrow> bool" where
  "item_matches (Lit a) c = (c = a)"
| "item_matches HexLower c = (c \<in> set ''abcdef0123456789'')"

fun match_items :: "re_item list \<Rightarrow> string \<Rightarrow> string option" where
  "match_items [] s = Some s"
| "match_items (i # is) [] = None"
| "match_items (i # is) (c # cs) = (if item_matches i c then match_items is cs else None)"

text \<open>The group of the pattern: \<open>[a-f0-9]{8}-[a-f0-9]{4}-[a-f0-9]{4}-[a-f0-9]{4}-[a-f0-9]{12}\<close>.\<close>

definition uuid_group :: "re_item list" where
  "uuid_group =
     replicate 8 HexLower @ [Lit CHR ''-''] @ replicate 4 HexLower @ [Lit CHR ''-''] @
     replicate 4 HexLower @ [Lit CHR ''-''] @ replicate 4 HexLower @ [Lit CHR ''-''] @
     replicate 12 HexLower"

text \<open>The whole pattern \<open>/(group)/\<close> at the start of \<open>s\<close>; the result is the text of the group.\<close>

definition match_at :: "string \<Rightarrow> string option" where
  "match_at s =
     (case match_items [Lit CHR ''/''] s of
        None \<Rightarrow> None
      | Some s1 \<Rightarrow>
          (case match_items uuid_group s1 of
             None \<Rightarrow> None
           | Some s2 \<Rightarrow>
               (case match_items [Lit CHR ''/''] s2 of
                  None \<Rightarrow> None
                | Some s3 \<Rightarrow> Some (take (length s1 - length s2) s1))))"

fun re_search :: "string \<Rightarrow> string option" where
  "re_search [] = match_at []"
| "re_search (c # cs) =
     (case match_at (c # cs) of
        Some g \<Rightarrow> Some g
      | None \<Rightarrow> re_search cs)"

section \<open>The extractors\<close>

definition extract_measurement_signature :: "string \<Rightarrow> string option" where
  "extract_measurement_signature url = re_search url"

definition extract_plate_barcode :: "string \<Rightarrow> py_error + string" where
  "extract_plate_barcode folder_name = subscript (split_on ''__'' folder_name) 0"

section \<open>Files and directories\<close>

text \<open>
  What a path can name: a regular file with its text, a directory with its entries in the
  order \<open>iterdir\<close> yields them, or a node that is no directory and that \<open>open\<close> refuses
  (no permission, undecodable bytes) with the message of the exception it raises. A path that names nothing is
  \<open>None\<close>. Paths are the strings \<open>str(path)\<close> of POSIX paths.
\<close>

datatype node = RegularFile string | Directory "(string \<times> node) list" | Inaccessible string

text \<open>\<open>str(path / name)\<close> for a single relative component \<open>name\<close>.\<close>

definition joinpath :: "string \<Rightarrow> string \<Rightarrow> string" where
  "joinpath path name =
     (if path = ''.'' then name
      else if path \<noteq> [] \<and> last path = CHR ''/'' then path @ name
      else path @ ''/'' @ name)"

text \<open>
  Text mode with universal newlines: \<open>\r\n\<close> and a lone \<open>\r\<close> are read as \<open>\n\<close>.
\<close>

fun universal_newlines :: "string \<Rightarrow> string" where
  "universal_newlines [] = []"
| "universal_newlines [c] = (if c = CR then [LF] else [c])"
| "universal_newlines (c # d # cs) =
     (if c = CR \<and> d = LF then LF # universal_newlines cs
      else if c = CR then LF # universal_newlines (d # cs)
      else c # universal_newlines (d # cs))"

text \<open>\<open>open(path, 'r', encoding='utf-8')\<close>: the text of the file, or the exception.\<close>

definition open_read :: "string \<Rightarrow> node option \<Rightarrow> py_error + string" where
  "open_read path target =
     (case target of
        None \<Rightarrow> Inl (OSError (''[Errno 2] No such file or directory: '' @ py_repr path))
      | Some (RegularFile raw) \<Rightarrow> Inr (universal_newlines raw)
      | Some (Directory entries) \<Rightarrow> Inl (OSError (''[Errno 21] Is a directory: '' @ py_repr path))
      | Some (Inaccessible msg) \<Rightarrow> Inl (OSError msg))"

text \<open>
  \<open>file.readline()\<close> on the unread text: the line with its newline (the empty string at
  the end of the file) and the text that remains unread.
\<close>

fun readline :: "string \<Rightarrow> string \<times> string" where
  "readline [] = ([], [])"
| "readline (c # cs) =
     (if c = LF then ([c], cs)
      else (case readline cs of (line, rest) \<Rightarrow> (c # line, rest)))"

text \<open>\<open>open(path, 'w', newline='', encoding='utf-8')\<close>: creates or truncates the file.\<close>

definition open_write :: "string \<Rightarrow> node option \<Rightarrow> py_error + unit" where
  "open_write path target =
     (case target of
        None \<Rightarrow> Inr ()
      | Some (RegularFile old) \<Rightarrow> Inr ()
      | Some (Directory entries) \<Rightarrow> Inl (OSError (''[Errno 21] Is a directory: '' @ py_repr path))
      | Some (Inaccessible msg) \<Rightarrow> Inl (OSError msg))"

section \<open>Reading one metadata file\<close>

text \<open>The loop over \<open>enumerate(header_cols)\<close> with its \<open>break\<close>; \<open>i\<close> is the running index.\<close>

fun find_url_col :: "string list \<Rightarrow> nat \<Rightarrow> nat option" where
  "find_url_col [] i = None"
| "find_url_col (col # cols) i =
     (if contains (code_points ''URL'') (upper col) then Some i else find_url_col cols (Suc i))"

text \<open>
  The body of the \<open>with\<close> block of \<open>process_indexfile\<close> on the text of the opened file.
  The result is the returned value, the lines printed, and the text left unread when
  the function returns.
\<close>

definition read_indexfile :: "string \<Rightarrow> string \<Rightarrow> string option \<times> string list \<times> string" where
  "read_indexfile indexfile_path text =
     (case readline text of (line1, rest1) \<Rightarrow>
        (let header = strip line1;
             header_cols = split_on [TAB] header
         in case find_url_col header_cols 0 of
              None \<Rightarrow> (None, [''Warning: No URL column found in '' @ indexfile_path], rest1)
            | Some url_col_index \<Rightarrow>
                (case readline rest1 of (line2, rest2) \<Rightarrow>
                   (let first_line = strip line2
                    in if first_line \<noteq> [] then
                         (let columns = split_on [TAB] first_line
                          in if length columns > url_col_index
                             then (extract_measurement_signature (columns ! url_col_index), [], rest2)
                             else (None, [], rest2))
                       else (None, [], rest2)))))"

definition str_error :: "py_error \<Rightarrow> string" where
  "str_error e = (case e of ValueError m \<Rightarrow> m | IndexError m \<Rightarrow> m | OSError m \<Rightarrow> m)"

text \<open>
  \<open>process_indexfile\<close>: every exception of opening or reading is caught, reported and
  turned into \<open>None\<close>. The result is the returned value and the lines printed.
\<close>

definition process_indexfile :: "string \<Rightarrow> node option \<Rightarrow> string option \<times> string list" where
  "process_indexfile indexfile_path target =
     (case open_read indexfile_path target of
        Inl e \<Rightarrow> (None, [''Error processing '' @ indexfile_path @ '': '' @ str_error e])
      | Inr text \<Rightarrow>
          (case read_indexfile indexfile_path text of (signature, out, rest) \<Rightarrow> (signature, out)))"

section \<open>Scanning the directory\<close>

text \<open>
  One round of the loop of \<open>process_indexfiles_directory\<close> on the entry \<open>(name, nd)\<close> of the
  root: the state is the list \<open>results\<close> and the lines printed so far. The signature is
  tested for its truth value, which is false for \<open>None\<close> and for the empty string. An
  exception of \<open>extract_plate_barcode\<close> is not caught there and would end the scan.
\<close>

definition scan_entry ::
  "string \<Rightarrow> string \<times> node \<Rightarrow> (string \<times> string) list \<times> string list \<Rightarrow>
     py_error + ((string \<times> string) list \<times> string list)" where
  "scan_entry indexfiles_dir entry state =
     (case state of (results, out) \<Rightarrow>
      (case entry of
         (name, Directory children) \<Rightarrow>
           (let folder_path = joinpath indexfiles_dir name in
            case extract_plate_barcode name of
              Inl e \<Rightarrow> Inl e
            | Inr plate_barcode \<Rightarrow>
                (let indexfile_path = joinpath folder_path ''indexfile.txt'';
                     target = map_of children ''indexfile.txt''
                 in if target \<noteq> None then
                      (case process_indexfile indexfile_path target of
                         (measurement_signature, printed) \<Rightarrow>
                           (case measurement_signature of
                              Some signature \<Rightarrow>
                                if signature \<noteq> [] then
                                  Inr (results @ [(plate_barcode, signature)],
                                       out @ printed @
                                         [''Processed: '' @ plate_barcode @ '' -> '' @ signature])
                                else
                                  Inr (results,
                                       out @ printed @
                                         [''Warning: No measurement signature found for '' @ plate_barcode])
                            | None \<Rightarrow>
                                Inr (results,
                                     out @ printed @
                                       [''Warning: No measurement signature found for '' @ plate_barcode])))
                    else
                      Inr (results, out @ [''Warning: indexfile.txt not found in '' @ folder_path])))
       | (name, RegularFile raw) \<Rightarrow> Inr (results, out)
       | (name, Inaccessible msg) \<Rightarrow> Inr (results, out)))"

fun scan_entries ::
  "string \<Rightarrow> (string \<times> node) list \<Rightarrow> (string \<times> string) list \<times> string list \<Rightarrow>
     py_error + ((string \<times> string) list \<times> string list)" where
  "scan_entries indexfiles_dir [] state = Inr state"
| "scan_entries indexfiles_dir (entry # entries) state =
     (case scan_entry indexfiles_dir entry state of
        Inl e \<Rightarrow> Inl e
      | Inr state' \<Rightarrow> scan_entries indexfiles_dir entries state')"

definition process_indexfiles_directory ::
  "string \<Rightarrow> node \<Rightarrow> py_error + ((string \<times> string) list \<times> string list)" where
  "process_indexfiles_directory indexfiles_dir root =
     (case root of
        Directory entries \<Rightarrow> scan_entries indexfiles_dir entries ([], [])
      | RegularFile raw \<Rightarrow> Inl (OSError (''[Errno 20] Not a directory: '' @ py_repr indexfiles_dir))
      | Inaccessible msg \<Rightarrow> Inl (OSError msg))"

section \<open>Writing the results\<close>

text \<open>
  \<open>sorted(results, key=lambda x: int(x[0]))\<close>: the key of every entry is computed first, in
  order, and the first exception ends the call; then the entries are sorted by key, and
  entries with equal keys keep their order (the sort is stable, as \<^const>\<open>sort_key\<close> is).
\<close>

fun int_keys :: "(string \<times> string) list \<Rightarrow> py_error + (int \<times> (string \<times> string)) list" where
  "int_keys [] = Inr []"
| "int_keys (x # xs) =
     (case py_int (fst x) of
        Inl e \<Rightarrow> Inl e
      | Inr k \<Rightarrow> (case int_keys xs of Inl e \<Rightarrow> Inl e | Inr ks \<Rightarrow> Inr ((k, x) # ks)))"

definition sorted_by_int :: "(string \<times> string) list \<Rightarrow> py_error + (string \<times> string) list" where
  "sorted_by_int results =
     (case int_keys results of
        Inl e \<Rightarrow> Inl e
      | Inr ks \<Rightarrow> Inr (map snd (sort_key fst ks)))"

text \<open>
  \<open>csv.writer(csvfile).writerow(fields)\<close> with the default dialect: a field is quoted when
  it holds the delimiter, the quote character or a character of a line end, a quote inside
  is doubled, a row of one empty field is written as \<open>""\<close>, and rows end with \<open>\r\n\<close>.
\<close>

definition csv_special :: "char \<Rightarrow> bool" where
  "csv_special c = (c = CHR '','' \<or> c = CHR 0x22 \<or> c = CR \<or> c = LF)"

definition csv_field :: "string \<Rightarrow> string" where
  "csv_field f =
     (if list_ex csv_special f
      then [CHR 0x22] @ concat (map (\<lambda>c. if c = CHR 0x22 then [c, c] else [c]) f) @ [CHR 0x22]
      else f)"

definition writerow :: "string list \<Rightarrow> string" where
  "writerow fields =
     (if fields = [[]] then [CHR 0x22, CHR 0x22] else join '','' (map csv_field fields)) @ [CR, LF]"

text \<open>
  \<open>save_results_to_csv\<close>: the result is the exception or normal return, what the output
  path names afterwards, and the lines printed.
\<close>

definition save_results_to_csv ::
  "(string \<times> string) list \<Rightarrow> string \<Rightarrow> node option \<Rightarrow>
     (py_error + unit) \<times> node option \<times> string list" where
  "save_results_to_csv results output_path target =
     (case sorted_by_int results of
        Inl e \<Rightarrow> (Inl e, target, [])
      | Inr sorted_results \<Rightarrow>
          (case open_write output_path target of
             Inl e \<Rightarrow> (Inl e, target, [])
           | Inr u \<Rightarrow>
               (Inr (),
                Some (RegularFile
                  (writerow [''Plate_Barcode'', ''Measurement_Signature''] @
                   concat (map (\<lambda>(plate_barcode, measurement_signature).
                                  writerow [plate_barcode, measurement_signature])
                               sorted_results))),
                [''Results saved to: '' @ output_path])))"

section \<open>The driver\<close>

text \<open>
  \<open>main\<close> after the arguments are parsed: \<open>input_dir\<close> is \<open>str(indexfiles_dir)\<close> and \<open>target\<close>
  what that path names. The result is the exit code or the exception that ends the
  process, what the path names afterwards, and the lines printed.
\<close>

definition store_entry :: "string \<Rightarrow> node \<Rightarrow> (string \<times> node) list \<Rightarrow> (string \<times> node) list" where
  "store_entry name nd entries =
     (if name \<in> fst ` set entries
      then map (\<lambda>(n, old). if n = name then (n, nd) else (n, old)) entries
      else entries @ [(name, nd)])"

definition main :: "string \<Rightarrow> node option \<Rightarrow> (py_error + int) \<times> node option \<times> string list" where
  "main input_dir target =
     (case target of
        None \<Rightarrow> (Inr 1, target, [''Error: Directory '' @ input_dir @ '' does not exist''])
      | Some (RegularFile raw) \<Rightarrow> (Inr 1, target, [''Error: '' @ input_dir @ '' is not a directory''])
      | Some (Inaccessible msg) \<Rightarrow> (Inr 1, target, [''Error: '' @ input_dir @ '' is not a directory''])
      | Some (Directory entries) \<Rightarrow>
          (let out0 = [''Processing indexfiles directory: '' @ input_dir] in
           case process_indexfiles_directory input_dir (Directory entries) of
             Inl e \<Rightarrow> (Inl e, target, out0)
           | Inr (results, out1) \<Rightarrow>
               if results = [] then
                 (Inr 1, target,
                  out0 @ out1 @
                    [''No results found. Please check your directory structure and indexfile.txt files.''])
               else
                 (let output_path = joinpath input_dir ''plates_measurement_signatures.csv'' in
                  case save_results_to_csv results output_path
                         (map_of entries ''plates_measurement_signatures.csv'') of
                    (Inl e, written, out2) \<Rightarrow> (Inl e, target, out0 @ out1 @ out2)
                  | (Inr u, written, out2) \<Rightarrow>
                      (Inr 0,
                       (case written of
                          None \<Rightarrow> target
                        | Some nd \<Rightarrow>
                            Some (Directory
                              (store_entry ''plates_measurement_signatures.csv'' nd entries))),
                       out0 @ out1 @ out2 @
                         [''Successfully processed '' @ str_nat (length results) @ '' indexfiles'']))))"

section \<open>Notions of the specification\<close>

text \<open>
  The canonical textual form of a UUID, in the words of the specification: 36
  characters, dashes at the positions 8, 13, 18 and 23, which separate groups of 8, 4, 4,
  4 and 12 lowercase hexadecimal digits.
\<close>

definition lower_hex :: "char \<Rightarrow> bool" where
  "lower_hex c = (c \<in> set ''0123456789abcdef'')"

definition uuid_shaped :: "string \<Rightarrow> bool" where
  "uuid_shaped u =
     (length u = 36 \<and>
      list_all lower_hex (take 8 u) \<and> u ! 8 = CHR ''-'' \<and>
      list_all lower_hex (take 4 (drop 9 u)) \<and> u ! 13 = CHR ''-'' \<and>
      list_all lower_hex (take 4 (drop 14 u)) \<and> u ! 18 = CHR ''-'' \<and>
      list_all lower_hex (take 4 (drop 19 u)) \<and> u ! 23 = CHR ''-'' \<and>
      list_all lower_hex (drop 24 u))"

text \<open>
  \<open>u\<close> is a path segment of \<open>url\<close> in UUID form, enclosed between two path separators;
  \<open>pre\<close> is the text before the opening separator and \<open>post\<close> the text after the closing one.
\<close>

definition is_segment :: "string \<Rightarrow> string \<Rightarrow> string \<Rightarrow> string \<Rightarrow> bool" where
  "is_segment url pre u post \<longleftrightarrow> url = pre @ ''/'' @ u @ ''/'' @ post \<and> uuid_shaped u"


text \<open>
  The header and the first data line as \<open>process_indexfile\<close> reads them from the text of a
  file: the first and the second line, without the blanks around them.
\<close>

definition header_of :: "string \<Rightarrow> string" where
  "header_of text = strip (fst (readline text))"

definition first_line_of :: "string \<Rightarrow> string" where
  "first_line_of text = strip (fst (readline (snd (readline text))))"

text \<open>
  What one entry of the root is expected to contribute to the scan: the signature read
  from the file \<open>indexfile.txt\<close> directly inside a subdirectory, paired with the barcode
  of the folder name.
\<close>

definition folder_signature :: "string \<Rightarrow> string \<times> node \<Rightarrow> string option" where
  "folder_signature indexfiles_dir entry =
     (case entry of
        (name, Directory children) \<Rightarrow>
          (case map_of children ''indexfile.txt'' of
             None \<Rightarrow> None
           | Some nd \<Rightarrow>
               fst (process_indexfile
                      (joinpath (joinpath indexfiles_dir name) ''indexfile.txt'') (Some nd)))
      | (name, RegularFile raw) \<Rightarrow> None
      | (name, Inaccessible msg) \<Rightarrow> None)"

definition folder_result :: "string \<Rightarrow> string \<times> node \<Rightarrow> (string \<times> string) option" where
  "folder_result indexfiles_dir entry =
     (case extract_plate_barcode (fst entry) of
        Inl e \<Rightarrow> None
      | Inr plate_barcode \<Rightarrow>
          map_option (\<lambda>signature. (plate_barcode, signature))
            (folder_signature indexfiles_dir entry))"

text \<open>The lines that the round of the loop on one entry of the root prints.\<close>

definition folder_output :: "string \<Rightarrow> string \<times> node \<Rightarrow> string list" where
  "folder_output indexfiles_dir entry =
     (case scan_entry indexfiles_dir entry ([], []) of
        Inl e \<Rightarrow> []
      | Inr (results, out) \<Rightarrow> out)"

text \<open>
  The example file of the specification: the header \<open>Row\tURL\tDate\<close> and one data line.
\<close>

definition example_indexfile :: string where
  "example_indexfile =
     ''Row'' @ [TAB] @ ''URL'' @ [TAB] @ ''Date'' @ [LF] @
     ''1'' @ [TAB] @ ''http://host/abc12345-1111-2222-3333-444455556666/file'' @ [TAB] @
     ''2024-01-01'' @ [LF]"

definition is_directory :: "node \<Rightarrow> bool" where
  "is_directory nd = (case nd of Directory children \<Rightarrow> True | _ \<Rightarrow> False)"

text \<open>The integer value of the barcode of an entry, the key of the order of the rows.\<close>

definition barcode_key :: "string \<times> string \<Rightarrow> int" where
  "barcode_key r = (case py_int (fst r) of Inr k \<Rightarrow> k | Inl e \<Rightarrow> 0)"

definition is_digit :: "char \<Rightarrow> bool" where
  "is_digit c = (c \<in> set ''0123456789'')"

definition csv_of :: "(string \<times> string) list \<Rightarrow> string" where
  "csv_of rows =
     writerow [''Plate_Barcode'', ''Measurement_Signature''] @
     concat (map (\<lambda>r. writerow [fst r, snd r]) rows)"

subsection \<open>Reading the CSV back\<close>

text \<open>
  Modelled from the spec: the repository only writes the CSV, it has no reader, and the
  round-trip property re-reads the file. The reader here is a standard CSV reader with the
  dialect of the writer: fields are separated by commas, a field that starts with a double
  quote runs to the closing quote, with doubled quotes inside standing for one, and a row
  ends at \<open>\r\n\<close>, \<open>\r\<close> or \<open>\n\<close>. It reads the text character by character; its state is
  the mode, the field and the row being read, and the rows read so far.
\<close>

datatype reader_mode = StartRecord | StartField | InField | InQuotedField | QuoteInQuotedField | AfterCR

type_synonym reader_state = "reader_mode \<times> string \<times> string list \<times> string list list"

text \<open>
  Modelled from the spec: the step of the reader on a character outside a quoted field. A
  comma ends the field, a line end ends the row (an empty line gives an empty row), a
  quote at the start of a field opens a quoted field.
\<close>

definition plain_step :: "reader_state \<Rightarrow> char \<Rightarrow> reader_state" where
  "plain_step st c =
     (case st of (mode, field, row, rows) \<Rightarrow>
        if c = CHR '','' then (StartField, [], row @ [field], rows)
        else if c = CR \<or> c = LF then
          (if c = CR then AfterCR else StartRecord, [], [],
           rows @ [if mode = StartRecord then [] else row @ [field]])
        else if c = CHR 0x22 \<and> (mode = StartRecord \<or> mode = StartField)
          then (InQuotedField, [], row, rows)
        else (InField, field @ [c], row, rows))"

text \<open>
  Modelled from the spec: the step of the reader on any character. Inside a quoted field
  everything but a quote belongs to the field; a quote after a quote stands for one
  quote; the \<open>\n\<close> after a \<open>\r\<close> belongs to the same line end.
\<close>

definition reader_step :: "reader_state \<Rightarrow> char \<Rightarrow> reader_state" where
  "reader_step st c =
     (case st of (mode, field, row, rows) \<Rightarrow>
        if mode = InQuotedField then
          (if c = CHR 0x22 then (QuoteInQuotedField, field, row, rows)
           else (InQuotedField, field @ [c], row, rows))
        else if mode = QuoteInQuotedField \<and> c = CHR 0x22 then (InQuotedField, field @ [c], row, rows)
        else if mode = AfterCR then
          (if c = LF then (StartRecord, [], [], rows) else plain_step (StartRecord, [], [], rows) c)
        else plain_step st c)"

text \<open>
  Modelled from the spec: the rows of a CSV text, read from the start; a last row without
  line end counts.
\<close>

definition csv_reader :: "string \<Rightarrow> string list list" where
  "csv_reader text =
     (case foldl reader_step (StartRecord, [], [], []) text of
        (mode, field, row, rows) \<Rightarrow>
          if mode = StartRecord \<or> mode = AfterCR then rows else rows @ [row @ [field]])"

section \<open>Splitting and searching text\<close>

lemma split_on_nonempty: "split_on sep s \<noteq> []"
  by (induction sep s rule: split_on.induct) (auto split: list.splits)

lemma hd_split_on_absent:
  "\<not> (\<exists>a b. s = a @ sep @ b) \<Longrightarrow> split_on sep s = [s]"
proof (induction sep s rule: split_on.induct)
  case (1 sep)
  then show ?case by simp
next
  case (2 sep c cs)
  have np: "\<not> prefix sep (c # cs)"
  proof
    assume "prefix sep (c # cs)"
    then obtain zs where "c # cs = [] @ sep @ zs" by (auto simp: prefix_def)
    with 2(3) show False by blast
  qed
  have "\<not> (\<exists>a b. cs = a @ sep @ b)"
  proof
    assume "\<exists>a b. cs = a @ sep @ b"
    then obtain a b where "cs = a @ sep @ b" by blast
    then have "c # cs = (c # a) @ sep @ b" by simp
    with 2(3) show False by blast
  qed
  with 2(2) np have "split_on sep cs = [cs]" by simp
  with np show ?case by simp
qed

lemma hd_split_on_first:
  assumes "sep \<noteq> []" "s = pre @ sep @ post"
    and "\<forall>a b. s = a @ sep @ b \<longrightarrow> length pre \<le> length a"
  shows "hd (split_on sep s) = pre"
  using assms
proof (induction pre arbitrary: s)
  case Nil
  then obtain c cs where "s = c # cs" by (cases sep) auto
  moreover have "prefix sep s" using Nil by (simp add: prefix_def)
  ultimately show ?case by simp
next
  case (Cons p pre)
  let ?t = "pre @ sep @ post"
  have s: "s = p # ?t" using Cons.prems by simp
  have np: "\<not> prefix sep s"
  proof
    assume "prefix sep s"
    then obtain b where "s = [] @ sep @ b" by (auto simp: prefix_def)
    with Cons.prems(3) have "length (p # pre) \<le> length ([]::string)" by blast
    then show False by simp
  qed
  have min: "\<forall>a b. ?t = a @ sep @ b \<longrightarrow> length pre \<le> length a"
  proof (intro allI impI)
    fix a b assume "?t = a @ sep @ b"
    then have "s = (p # a) @ sep @ b" using s by simp
    with Cons.prems(3) have "length (p # pre) \<le> length (p # a)" by blast
    then show "length pre \<le> length a" by simp
  qed
  have "hd (split_on sep ?t) = pre"
    using Cons.IH[OF Cons.prems(1) refl min] .
  with np s split_on_nonempty[of sep ?t] show ?case
    by (auto split: list.splits)
qed


lemma match_items_iff:
  "match_items is s = Some r \<longleftrightarrow> (\<exists>m. s = m @ r \<and> list_all2 item_matches is m)"
proof (induction "is" s rule: match_items.induct)
  case (1 s)
  then show ?case by auto
next
  case (2 i "is")
  then show ?case by (auto simp: list_all2_Cons1)
next
  case (3 i "is" c cs)
  then show ?case by (auto simp: list_all2_Cons1)
qed

lemma list_all2_replicate_hex:
  "list_all2 item_matches (replicate n HexLower) m \<longleftrightarrow> length m = n \<and> list_all lower_hex m"
proof (induction n arbitrary: m)
  case 0
  then show ?case by auto
next
  case (Suc n)
  then show ?case by (cases m) (auto simp: lower_hex_def)
qed

lemma list_all2_lit: "list_all2 item_matches [Lit a] m \<longleftrightarrow> m = [a]"
  by (cases m) (auto simp: list_all2_Cons1)

lemma uuid_group_iff: "list_all2 item_matches uuid_group u \<longleftrightarrow> uuid_shaped u"
proof
  assume "list_all2 item_matches uuid_group u"
  then obtain a b c d e where
    u: "u = a @ ''-'' @ b @ ''-'' @ c @ ''-'' @ d @ ''-'' @ e"
    and l: "length a = 8" "length b = 4" "length c = 4" "length d = 4" "length e = 12"
    and h: "list_all lower_hex a" "list_all lower_hex b" "list_all lower_hex c"
           "list_all lower_hex d" "list_all lower_hex e"
    unfolding uuid_group_def
    by (auto simp: list_all2_append1 list_all2_replicate_hex list_all2_lit list_all2_Cons1)
  show "uuid_shaped u"
    unfolding uuid_shaped_def u using l h by (simp add: nth_append)
next
  assume s: "uuid_shaped u"
  define a where "a = take 8 u"
  define b where "b = take 4 (drop 9 u)"
  define c where "c = take 4 (drop 14 u)"
  define d where "d = take 4 (drop 19 u)"
  define e where "e = drop 24 u"
  have len: "length u = 36" using s by (simp add: uuid_shaped_def)
  have step: "\<And>n. n < 36 \<Longrightarrow> drop n u = u ! n # drop (Suc n) u"
    using len by (simp add: Cons_nth_drop_Suc)
  have "u = take 8 u @ drop 8 u" by simp
  also have "drop 8 u = u ! 8 # drop 9 u" using step[of 8] by simp
  also have "drop 9 u = take 4 (drop 9 u) @ drop 13 u" 
    using append_take_drop_id[of 4 "drop 9 u"] by simp
  also have "drop 13 u = u ! 13 # drop 14 u" using step[of 13] by simp
  also have "drop 14 u = take 4 (drop 14 u) @ drop 18 u"
    using append_take_drop_id[of 4 "drop 14 u"] by simp
  also have "drop 18 u = u ! 18 # drop 19 u" using step[of 18] by simp
  also have "drop 19 u = take 4 (drop 19 u) @ drop 23 u"
    using append_take_drop_id[of 4 "drop 19 u"] by simp
  also have "drop 23 u = u ! 23 # drop 24 u" using step[of 23] by simp
  finally have u: "u = a @ u ! 8 # b @ u ! 13 # c @ u ! 18 # d @ u ! 23 # e"
    by (simp add: a_def b_def c_def d_def e_def)
  have l: "length a = 8" "length b = 4" "length c = 4" "length d = 4" "length e = 12"
    using len by (simp_all add: a_def b_def c_def d_def e_def)
  have h: "list_all lower_hex a" "list_all lower_hex b" "list_all lower_hex c"
           "list_all lower_hex d" "list_all lower_hex e"
    and dash: "u ! 8 = CHR ''-''" "u ! 13 = CHR ''-''" "u ! 18 = CHR ''-''" "u ! 23 = CHR ''-''"
    using s by (simp_all add: uuid_shaped_def a_def b_def c_def d_def e_def)
  have "list_all2 item_matches uuid_group (a @ ''-'' @ b @ ''-'' @ c @ ''-'' @ d @ ''-'' @ e)"
    unfolding uuid_group_def using l h
    by (intro list_all2_appendI) (simp_all add: list_all2_replicate_hex)
  then show "list_all2 item_matches uuid_group u"
    using u dash by simp
qed


lemma match_at_iff:
  "match_at s = Some u \<longleftrightarrow> (\<exists>post. s = ''/'' @ u @ ''/'' @ post \<and> uuid_shaped u)"
proof
  assume "match_at s = Some u"
  then obtain s1 s2 s3 where
    m1: "match_items [Lit CHR ''/''] s = Some s1" and
    m2: "match_items uuid_group s1 = Some s2" and
    m3: "match_items [Lit CHR ''/''] s2 = Some s3" and
    u: "u = take (length s1 - length s2) s1"
    by (auto simp: match_at_def split: option.splits)
  from m1 have s: "s = ''/'' @ s1" by (simp add: match_items_iff list_all2_lit)
  from m2 obtain g where g: "s1 = g @ s2" "uuid_shaped g"
    by (auto simp: match_items_iff uuid_group_iff)
  from m3 have s2: "s2 = ''/'' @ s3" by (simp add: match_items_iff list_all2_lit)
  from u g have "u = g" by simp
  with s g s2 show "\<exists>post. s = ''/'' @ u @ ''/'' @ post \<and> uuid_shaped u" by auto
next
  assume "\<exists>post. s = ''/'' @ u @ ''/'' @ post \<and> uuid_shaped u"
  then obtain post where s: "s = ''/'' @ u @ ''/'' @ post" and u: "uuid_shaped u" by blast
  have m1: "match_items [Lit CHR ''/''] s = Some (u @ ''/'' @ post)"
    using s by (simp add: match_items_iff list_all2_lit)
  have m2: "match_items uuid_group (u @ ''/'' @ post) = Some (''/'' @ post)"
    using u by (simp add: match_items_iff uuid_group_iff)
  have m3: "match_items [Lit CHR ''/''] (''/'' @ post) = Some post"
    by (simp add: match_items_iff list_all2_lit)
  show "match_at s = Some u"
    unfolding match_at_def using m1 m2 m3 by simp
qed

lemma match_at_None:
  "match_at s = None \<longleftrightarrow> \<not> (\<exists>u post. s = ''/'' @ u @ ''/'' @ post \<and> uuid_shaped u)"
proof (cases "match_at s")
  case None
  then show ?thesis using match_at_iff[of s] by auto
next
  case (Some g)
  then show ?thesis using match_at_iff[of s g] by auto
qed

lemma re_search_None:
  "re_search s = None \<longleftrightarrow>
     \<not> (\<exists>pre u post. s = pre @ ''/'' @ u @ ''/'' @ post \<and> uuid_shaped u)"
proof (induction s)
  case Nil
  then show ?case by (simp add: match_at_None)
next
  case (Cons c cs)
  have "(\<exists>pre u post. c # cs = pre @ ''/'' @ u @ ''/'' @ post \<and> uuid_shaped u) \<longleftrightarrow>
        (\<exists>u post. c # cs = ''/'' @ u @ ''/'' @ post \<and> uuid_shaped u) \<or>
        (\<exists>pre u post. cs = pre @ ''/'' @ u @ ''/'' @ post \<and> uuid_shaped u)"
    (is "?L \<longleftrightarrow> ?A \<or> ?B")
  proof
    assume ?L
    then obtain pre u post where
      e: "c # cs = pre @ ''/'' @ u @ ''/'' @ post" and u: "uuid_shaped u" by blast
    show "?A \<or> ?B"
    proof (cases pre)
      case Nil
      with e u show ?thesis by auto
    next
      case (Cons p pre')
      with e have "cs = pre' @ ''/'' @ u @ ''/'' @ post" by simp
      with u show ?thesis by blast
    qed
  next
    assume "?A \<or> ?B"
    then show ?L
    proof
      assume ?A
      then obtain u post where "c # cs = [] @ ''/'' @ u @ ''/'' @ post" "uuid_shaped u" by auto
      then show ?L by blast
    next
      assume ?B
      then obtain pre u post where "cs = pre @ ''/'' @ u @ ''/'' @ post" "uuid_shaped u" by blast
      then have "c # cs = (c # pre) @ ''/'' @ u @ ''/'' @ post" "uuid_shaped u" by simp_all
      then show ?L by blast
    qed
  qed
  moreover have "re_search (c # cs) = None \<longleftrightarrow> match_at (c # cs) = None \<and> re_search cs = None"
    by (simp split: option.splits)
  ultimately show ?case
    using Cons.IH match_at_None[of "c # cs"] by blast
qed



lemma is_segment_Nil: "is_segment s [] u post \<Longrightarrow> match_at s = Some u"
  by (auto simp: is_segment_def match_at_iff)

lemma is_segment_Cons: "is_segment (c # cs) (p # pre) u post \<longleftrightarrow> p = c \<and> is_segment cs pre u post"
  by (auto simp: is_segment_def)

lemma re_search_sound:
  "re_search s = Some u \<Longrightarrow>
     \<exists>pre post. is_segment s pre u post \<and>
       (\<forall>pre' u' post'. is_segment s pre' u' post' \<longrightarrow> length pre \<le> length pre')"
proof (induction s)
  case Nil
  then show ?case by (simp add: match_at_iff)
next
  case (Cons c cs)
  show ?case
  proof (cases "match_at (c # cs)")
    case (Some g)
    with Cons.prems have "g = u" by simp
    with Some obtain post where "is_segment (c # cs) [] u post"
      by (auto simp: match_at_iff is_segment_def)
    then show ?thesis by (intro exI[of _ "[]"] exI[of _ post]) simp
  next
    case None
    with Cons.prems have "re_search cs = Some u" by simp
    from Cons.IH[OF this] obtain pre post where
      seg: "is_segment cs pre u post" and
      least: "\<forall>pre' u' post'. is_segment cs pre' u' post' \<longrightarrow> length pre \<le> length pre'"
      by blast
    have "is_segment (c # cs) (c # pre) u post"
      using seg by (simp add: is_segment_Cons)
    moreover have "\<forall>pre' u' post'. is_segment (c # cs) pre' u' post' \<longrightarrow> length (c # pre) \<le> length pre'"
    proof (intro allI impI)
      fix pre' u' post'
      assume a: "is_segment (c # cs) pre' u' post'"
      show "length (c # pre) \<le> length pre'"
      proof (cases pre')
        case Nil
        with a None show ?thesis using is_segment_Nil by fastforce
      next
        case (Cons p q)
        with a have "is_segment cs q u' post'" by (simp add: is_segment_Cons)
        with least have "length pre \<le> length q" by blast
        with Cons show ?thesis by simp
      qed
    qed
    ultimately show ?thesis by blast
  qed
qed

lemma uuid_shaped_length: "uuid_shaped u \<Longrightarrow> length u = 36"
  by (simp add: uuid_shaped_def)

lemma is_segment_same_start:
  assumes "is_segment s pre u post" "is_segment s pre' u' post'" "length pre = length pre'"
  shows "u = u'"
proof -
  have e: "pre @ ''/'' @ u @ ''/'' @ post = pre' @ ''/'' @ u' @ ''/'' @ post'"
    using assms(1,2) by (simp add: is_segment_def)
  with assms(3) have "u @ ''/'' @ post = u' @ ''/'' @ post'" by simp
  moreover have "length u = length u'"
    using assms(1,2) by (simp add: is_segment_def uuid_shaped_length)
  ultimately show ?thesis by simp
qed

lemma re_search_iff:
  "re_search s = Some u \<longleftrightarrow>
     (\<exists>pre post. is_segment s pre u post \<and>
       (\<forall>pre' u' post'. is_segment s pre' u' post' \<longrightarrow> length pre \<le> length pre'))"
proof
  assume "re_search s = Some u"
  then show "\<exists>pre post. is_segment s pre u post \<and>
       (\<forall>pre' u' post'. is_segment s pre' u' post' \<longrightarrow> length pre \<le> length pre')"
    by (rule re_search_sound)
next
  assume "\<exists>pre post. is_segment s pre u post \<and>
       (\<forall>pre' u' post'. is_segment s pre' u' post' \<longrightarrow> length pre \<le> length pre')"
  then obtain pre post where seg: "is_segment s pre u post" and
    least: "\<forall>pre' u' post'. is_segment s pre' u' post' \<longrightarrow> length pre \<le> length pre'"
    by blast
  from seg have "re_search s \<noteq> None"
    by (auto simp: re_search_None is_segment_def)
  then obtain g where g: "re_search s = Some g" by auto
  from re_search_sound[OF g] obtain pre2 post2 where seg2: "is_segment s pre2 g post2" and
    least2: "\<forall>pre' u' post'. is_segment s pre' u' post' \<longrightarrow> length pre2 \<le> length pre'"
    by blast
  from least seg2 least2 seg have "length pre = length pre2"
    by (meson le_antisym)
  with seg seg2 have "u = g" by (rule is_segment_same_start)
  with g show "re_search s = Some u" by simp
qed


lemma contains_iff: "contains sub s \<longleftrightarrow> (\<exists>a b. s = a @ sub @ b)"
proof (induction s)
  case Nil
  then show ?case by auto
next
  case (Cons c cs)
  have "(\<exists>a b. c # cs = a @ sub @ b) \<longleftrightarrow> prefix sub (c # cs) \<or> (\<exists>a b. cs = a @ sub @ b)"
    (is "?L \<longleftrightarrow> ?P \<or> ?R")
  proof
    assume ?L
    then obtain a b where e: "c # cs = a @ sub @ b" by blast
    show "?P \<or> ?R"
    proof (cases a)
      case Nil
      with e show ?thesis by (auto simp: prefix_def)
    next
      case (Cons x a')
      with e have "cs = a' @ sub @ b" by simp
      then show ?thesis by blast
    qed
  next
    assume "?P \<or> ?R"
    then show ?L
    proof
      assume ?P
      then obtain b where "c # cs = [] @ sub @ b" by (auto simp: prefix_def)
      then show ?L by blast
    next
      assume ?R
      then obtain a b where "cs = a @ sub @ b" by blast
      then have "c # cs = (c # a) @ sub @ b" by simp
      then show ?L by blast
    qed
  qed
  with Cons.IH show ?case by simp
qed

lemma first_occurrence_exists:
  assumes "s = a @ sep @ b"
  shows "\<exists>pre post. s = pre @ sep @ post \<and> (\<forall>a b. s = a @ sep @ b \<longrightarrow> length pre \<le> length a)"
proof -
  let ?P = "\<lambda>p. s = fst p @ sep @ snd p"
  have "?P (a, b)" using assms by simp
  from ex_has_least_nat[of ?P "(a, b)" "\<lambda>p. length (fst p)", OF this]
  obtain p where "?P p" and "\<forall>q. ?P q \<longrightarrow> length (fst p) \<le> length (fst q)" by blast
  then show ?thesis
    by (intro exI[of _ "fst p"] exI[of _ "snd p"]) auto
qed

lemma extract_plate_barcode_hd:
  "extract_plate_barcode folder_name = Inr (hd (split_on ''__'' folder_name))"
  using split_on_nonempty[of "''__''" folder_name]
  by (cases "split_on ''__'' folder_name") (simp_all add: extract_plate_barcode_def subscript_def)

lemma list_all2_item_chars:
  assumes "list_all2 item_matches items m"
    and "\<And>i c. i \<in> set items \<Longrightarrow> item_matches i c \<Longrightarrow> P c"
  shows "\<forall>c \<in> set m. P c"
  using assms by (induction rule: list_all2_induct) auto

lemma set_uuid_group: "set uuid_group = {HexLower, Lit CHR ''-''}"
  unfolding uuid_group_def by (simp add: insert_commute)

lemma hex_class_subset: "set ''abcdef0123456789'' \<subseteq> set ''0123456789abcdef-''"
  by simp

lemma dash_member: "CHR ''-'' \<in> set ''0123456789abcdef-''"
  by simp

lemma uuid_item_chars:
  assumes "i \<in> set uuid_group" "item_matches i c"
  shows "c \<in> set ''0123456789abcdef-''"
proof -
  from assms(1) have "i = HexLower \<or> i = Lit CHR ''-''"
    by (simp only: set_uuid_group insert_iff empty_iff) blast
  then show ?thesis
  proof
    assume "i = HexLower"
    with assms(2) have "c \<in> set ''abcdef0123456789''" by (simp only: item_matches.simps)
    with hex_class_subset show ?thesis by (rule subsetD)
  next
    assume "i = Lit CHR ''-''"
    with assms(2) have "c = CHR ''-''" by (simp only: item_matches.simps)
    with dash_member show ?thesis by (simp only:)
  qed
qed

lemma uuid_shaped_chars:
  assumes "uuid_shaped u" "c \<in> set u"
  shows "c \<in> set ''0123456789abcdef-''"
proof -
  from assms(1) have l: "list_all2 item_matches uuid_group u" by (simp only: uuid_group_iff)
  have "\<forall>c \<in> set u. c \<in> set ''0123456789abcdef-''"
    by (rule list_all2_item_chars[OF l]) (rule uuid_item_chars)
  with assms(2) show ?thesis by blast
qed

lemma no_upper_hex: "set ''0123456789abcdef-'' \<inter> set ''ABCDEF'' = {}"
  by simp

section \<open>The barcode of a folder name\<close>

text \<open>
  Claim C7. For a folder name that contains the delimiter \<open>__\<close>, \<open>extract_plate_barcode\<close>
  returns exactly the text before the first occurrence of \<open>__\<close> (no occurrence starts
  further left); for a folder name without \<open>__\<close> it returns the whole name unchanged; and
  it returns a barcode for every folder name, it never raises.
\<close>

theorem extract_plate_barcode_prefix:
  "((\<exists>a b. folder_name = a @ ''__'' @ b) \<longrightarrow>
      (\<exists>pre post. folder_name = pre @ ''__'' @ post \<and>
         (\<forall>a b. folder_name = a @ ''__'' @ b \<longrightarrow> length pre \<le> length a) \<and>
         extract_plate_barcode folder_name = Inr pre)) \<and>
   ((\<nexists>a b. folder_name = a @ ''__'' @ b) \<longrightarrow>
      extract_plate_barcode folder_name = Inr folder_name) \<and>
   (\<exists>barcode. extract_plate_barcode folder_name = Inr barcode)"
proof (intro conjI impI)
  assume "\<exists>a b. folder_name = a @ ''__'' @ b"
  then obtain a b where "folder_name = a @ ''__'' @ b" by blast
  from first_occurrence_exists[OF this] obtain pre post where
    p: "folder_name = pre @ ''__'' @ post" and
    m: "\<forall>a b. folder_name = a @ ''__'' @ b \<longrightarrow> length pre \<le> length a" by blast
  have "hd (split_on ''__'' folder_name) = pre"
    by (rule hd_split_on_first[OF _ p m]) simp
  then have "extract_plate_barcode folder_name = Inr pre"
    by (simp add: extract_plate_barcode_hd)
  with p m show "\<exists>pre post. folder_name = pre @ ''__'' @ post \<and>
         (\<forall>a b. folder_name = a @ ''__'' @ b \<longrightarrow> length pre \<le> length a) \<and>
         extract_plate_barcode folder_name = Inr pre" by blast
next
  assume "\<nexists>a b. folder_name = a @ ''__'' @ b"
  then have "split_on ''__'' folder_name = [folder_name]" by (rule hd_split_on_absent)
  then show "extract_plate_barcode folder_name = Inr folder_name"
    by (simp add: extract_plate_barcode_hd)
next
  show "\<exists>barcode. extract_plate_barcode folder_name = Inr barcode"
    by (simp add: extract_plate_barcode_hd)
qed

theorem extract_plate_barcode_prefix_witness:
  "(\<exists>a b. ''30082__2025-05-31T01_01_45-Measurement 1'' = a @ ''__'' @ b) \<and>
   (\<exists>pre post. ''30082__2025-05-31T01_01_45-Measurement 1'' = pre @ ''__'' @ post \<and>
      (\<forall>a b. ''30082__2025-05-31T01_01_45-Measurement 1'' = a @ ''__'' @ b \<longrightarrow> length pre \<le> length a) \<and>
      extract_plate_barcode ''30082__2025-05-31T01_01_45-Measurement 1'' = Inr pre) \<and>
   extract_plate_barcode ''30082__2025-05-31T01_01_45-Measurement 1'' = Inr ''30082'' \<and>
   (\<nexists>a b. ''30082_plate'' = a @ ''__'' @ b) \<and>
   extract_plate_barcode ''30082_plate'' = Inr ''30082_plate''"
proof -
  have h1: "\<exists>a b. ''30082__2025-05-31T01_01_45-Measurement 1'' = a @ ''__'' @ b"
    unfolding contains_iff[symmetric] by simp
  have h2: "\<nexists>a b. ''30082_plate'' = a @ ''__'' @ b"
    unfolding contains_iff[symmetric] by simp
  have e: "extract_plate_barcode ''30082__2025-05-31T01_01_45-Measurement 1'' = Inr ''30082''"
    by (simp add: extract_plate_barcode_def subscript_def)
  show ?thesis
    using h1 h2 e
      extract_plate_barcode_prefix[of "''30082__2025-05-31T01_01_45-Measurement 1''"]
      extract_plate_barcode_prefix[of "''30082_plate''"]
    by blast
qed

section \<open>The signature of a URL\<close>

text \<open>
  Claim C1. \<open>extract_measurement_signature\<close> returns \<open>u\<close> exactly when \<open>u\<close> is the leftmost
  path segment of the URL in the canonical lowercase UUID form (groups of 8-4-4-4-12
  hexadecimal digits separated by dashes, between two path separators); a URL that
  contains such a segment yields one of its segments; a URL that contains none yields
  \<open>None\<close>; and a matching segment holds no uppercase hexadecimal digit.
\<close>

theorem extract_measurement_signature_segment:
  "(extract_measurement_signature url = Some u \<longleftrightarrow>
      (\<exists>pre post. is_segment url pre u post \<and>
         (\<forall>pre' u' post'. is_segment url pre' u' post' \<longrightarrow> length pre \<le> length pre'))) \<and>
   ((\<exists>pre u post. is_segment url pre u post) \<longrightarrow>
      (\<exists>pre u post. is_segment url pre u post \<and> extract_measurement_signature url = Some u)) \<and>
   ((\<nexists>pre u post. is_segment url pre u post) \<longrightarrow> extract_measurement_signature url = None) \<and>
   (\<forall>pre u post. is_segment url pre u post \<longrightarrow> set u \<inter> set ''ABCDEF'' = {})"
proof (intro conjI impI allI)
  show "extract_measurement_signature url = Some u \<longleftrightarrow>
      (\<exists>pre post. is_segment url pre u post \<and>
         (\<forall>pre' u' post'. is_segment url pre' u' post' \<longrightarrow> length pre \<le> length pre'))"
    unfolding extract_measurement_signature_def by (rule re_search_iff)
next
  assume "\<exists>pre u post. is_segment url pre u post"
  then have "re_search url \<noteq> None"
    by (simp add: re_search_None is_segment_def)
  then obtain g where g: "re_search url = Some g" by auto
  from re_search_sound[OF g] obtain pre post where "is_segment url pre g post" by blast
  with g show "\<exists>pre u post. is_segment url pre u post \<and> extract_measurement_signature url = Some u"
    unfolding extract_measurement_signature_def by blast
next
  assume "\<nexists>pre u post. is_segment url pre u post"
  then show "extract_measurement_signature url = None"
    by (simp add: extract_measurement_signature_def re_search_None is_segment_def)
next
  fix pre u post
  assume "is_segment url pre u post"
  then have "uuid_shaped u" by (simp add: is_segment_def)
  then have "set u \<subseteq> set ''0123456789abcdef-''"
    using uuid_shaped_chars by blast
  with no_upper_hex show "set u \<inter> set ''ABCDEF'' = {}" by blast
qed

theorem extract_measurement_signature_segment_witness:
  "is_segment ''http://host/abc12345-1111-2222-3333-444455556666/file''
     ''http://host'' ''abc12345-1111-2222-3333-444455556666'' ''file'' \<and>
   (\<exists>pre u post. is_segment ''http://host/abc12345-1111-2222-3333-444455556666/file'' pre u post \<and>
      extract_measurement_signature ''http://host/abc12345-1111-2222-3333-444455556666/file'' = Some u) \<and>
   set ''abc12345-1111-2222-3333-444455556666'' \<inter> set ''ABCDEF'' = {} \<and>
   extract_measurement_signature ''http://host/abc12345-1111-2222-3333-444455556666/file''
     = Some ''abc12345-1111-2222-3333-444455556666'' \<and>
   (\<exists>pre post. is_segment ''http://host/abc12345-1111-2222-3333-444455556666/file''
      pre ''abc12345-1111-2222-3333-444455556666'' post) \<and>
   extract_measurement_signature ''http://host/ABC12345-1111-2222-3333-444455556666/file'' = None \<and>
   (\<nexists>pre u post. is_segment ''http://host/ABC12345-1111-2222-3333-444455556666/file'' pre u post)"
proof -
  let ?url = "''http://host/abc12345-1111-2222-3333-444455556666/file''"
  let ?u = "''abc12345-1111-2222-3333-444455556666''"
  let ?URL = "''http://host/ABC12345-1111-2222-3333-444455556666/file''"
  have seg: "is_segment ?url ''http://host'' ?u ''file''"
    by (simp add: is_segment_def uuid_shaped_def lower_hex_def)
  have some: "extract_measurement_signature ?url = Some ?u"
    by code_simp
  have none: "extract_measurement_signature ?URL = None"
    by code_simp
  note t1 = extract_measurement_signature_segment[of ?url ?u]
  note t2 = extract_measurement_signature_segment[of ?URL ?u]
  have ex: "\<exists>pre u post. is_segment ?url pre u post"
    using seg by (intro exI)
  have a: "\<exists>pre u post. is_segment ?url pre u post \<and> extract_measurement_signature ?url = Some u"
    using t1 ex by (elim conjE) (erule (1) mp)
  have b: "set ?u \<inter> set ''ABCDEF'' = {}"
    using t1 seg by (elim conjE allE) (erule (1) mp)
  have c0: "\<exists>pre post. is_segment ?url pre ?u post \<and>
         (\<forall>pre' u' post'. is_segment ?url pre' u' post' \<longrightarrow> length pre \<le> length pre')"
    using t1 some by (elim conjE) (erule (1) iffD1)
  then obtain pre post where "is_segment ?url pre ?u post" by (elim exE conjE)
  then have c: "\<exists>pre post. is_segment ?url pre ?u post" by (intro exI)
  have d: "\<nexists>pre u post. is_segment ?URL pre u post"
  proof
    assume "\<exists>pre u post. is_segment ?URL pre u post"
    with t2 have "\<exists>pre u post. is_segment ?URL pre u post \<and> extract_measurement_signature ?URL = Some u"
      by (elim conjE) (erule (1) mp)
    then obtain x where "extract_measurement_signature ?URL = Some x" by (elim exE conjE)
    with none show False by (simp only: option.distinct)
  qed
  show ?thesis by (intro conjI; fact)
qed

section \<open>Reading the header and the first data line\<close>





















lemma read_indexfile_no_url:
  assumes "find_url_col (split_on [TAB] (header_of text)) 0 = None"
  shows "read_indexfile path text =
           (None, [''Warning: No URL column found in '' @ path], snd (readline text))"
  using assms unfolding read_indexfile_def header_of_def
  by (cases "readline text") simp

lemma read_indexfile_url:
  assumes "find_url_col (split_on [TAB] (header_of text)) 0 = Some i"
  shows "read_indexfile path text =
           (if first_line_of text \<noteq> [] \<and> i < length (split_on [TAB] (first_line_of text))
            then extract_measurement_signature (split_on [TAB] (first_line_of text) ! i)
            else None,
            [], snd (readline (snd (readline text))))"
proof -
  obtain line1 rest1 where r1: "readline text = (line1, rest1)" by (cases "readline text")
  obtain line2 rest2 where r2: "readline rest1 = (line2, rest2)" by (cases "readline rest1")
  from assms r1 have f: "find_url_col (split_on [TAB] (strip line1)) 0 = Some i"
    by (simp add: header_of_def)
  show ?thesis
    unfolding read_indexfile_def first_line_of_def
    using r1 r2 f by (simp add: Let_def)
qed

lemma process_indexfile_regular:
  "process_indexfile path (Some (RegularFile raw)) =
     (fst (read_indexfile path (universal_newlines raw)),
      fst (snd (read_indexfile path (universal_newlines raw))))"
  unfolding process_indexfile_def open_read_def
  by (cases "read_indexfile path (universal_newlines raw)") simp






section \<open>The scan of the directory\<close>

lemma extract_signature_uuid:
  assumes "extract_measurement_signature url = Some s"
  shows "uuid_shaped s"
proof -
  from assms have "re_search url = Some s" by (simp add: extract_measurement_signature_def)
  from re_search_sound[OF this] show ?thesis by (auto simp: is_segment_def)
qed

lemma read_indexfile_Some_uuid:
  assumes "fst (read_indexfile path text) = Some s"
  shows "uuid_shaped s"
proof (cases "find_url_col (split_on [TAB] (header_of text)) 0")
  case None
  from read_indexfile_no_url[OF this, of path] assms show ?thesis by simp
next
  case (Some i)
  from read_indexfile_url[OF this, of path] assms
  have "extract_measurement_signature (split_on [TAB] (first_line_of text) ! i) = Some s"
    by (simp split: if_splits)
  then show ?thesis by (rule extract_signature_uuid)
qed

lemma process_indexfile_Some_uuid:
  assumes "fst (process_indexfile path target) = Some s"
  shows "uuid_shaped s"
proof (cases "open_read path target")
  case (Inl e)
  with assms show ?thesis by (simp add: process_indexfile_def)
next
  case (Inr contents)
  with assms have "fst (read_indexfile path contents) = Some s"
    by (simp add: process_indexfile_def split: prod.splits)
  then show ?thesis by (rule read_indexfile_Some_uuid)
qed

lemma uuid_shaped_nonempty: "uuid_shaped s \<Longrightarrow> s \<noteq> []"
  by (auto simp: uuid_shaped_def)

lemma scan_entry_file:
  "scan_entry d (name, RegularFile raw) st = Inr st"
  "scan_entry d (name, Inaccessible msg) st = Inr st"
  by (cases st; simp add: scan_entry_def)+

lemma scan_entry_missing:
  assumes "map_of children ''indexfile.txt'' = None"
  shows "scan_entry d (name, Directory children) (results, out) =
           Inr (results, out @ [''Warning: indexfile.txt not found in '' @ joinpath d name])"
  using assms by (simp add: scan_entry_def extract_plate_barcode_hd)

lemma scan_entry_signature:
  assumes "map_of children ''indexfile.txt'' = Some nd"
    and "process_indexfile (joinpath (joinpath d name) ''indexfile.txt'') (Some nd) = (Some s, printed)"
  shows "scan_entry d (name, Directory children) (results, out) =
           Inr (results @ [(hd (split_on ''__'' name), s)],
                out @ printed @ [''Processed: '' @ hd (split_on ''__'' name) @ '' -> '' @ s])"
proof -
  from assms(2)
  have "fst (process_indexfile (joinpath (joinpath d name) ''indexfile.txt'') (Some nd)) = Some s"
    by simp
  then have "uuid_shaped s" by (rule process_indexfile_Some_uuid)
  then have "s \<noteq> []" by (rule uuid_shaped_nonempty)
  with assms show ?thesis
    by (simp add: scan_entry_def extract_plate_barcode_hd)
qed

lemma scan_entry_no_signature:
  assumes "map_of children ''indexfile.txt'' = Some nd"
    and "process_indexfile (joinpath (joinpath d name) ''indexfile.txt'') (Some nd) = (None, printed)"
  shows "scan_entry d (name, Directory children) (results, out) =
           Inr (results,
                out @ printed @ [''Warning: No measurement signature found for '' @ hd (split_on ''__'' name)])"
  using assms by (simp add: scan_entry_def extract_plate_barcode_hd)

lemma scan_entry_state:
  "scan_entry d entry (results, out) =
     Inr (results @ (case folder_result d entry of None \<Rightarrow> [] | Some r \<Rightarrow> [r]),
          out @ folder_output d entry)"
proof (cases entry)
  case (Pair name nd)
  show ?thesis
  proof (cases nd)
    case (RegularFile raw)
    with Pair show ?thesis
      by (simp add: scan_entry_file folder_result_def folder_signature_def folder_output_def
               extract_plate_barcode_hd)
  next
    case (Inaccessible msg)
    with Pair show ?thesis
      by (simp add: scan_entry_file folder_result_def folder_signature_def folder_output_def
               extract_plate_barcode_hd)
  next
    case (Directory children)
    show ?thesis
    proof (cases "map_of children ''indexfile.txt''")
      case None
      with Pair Directory show ?thesis
        by (simp add: scan_entry_missing folder_result_def folder_signature_def folder_output_def
                 extract_plate_barcode_hd)
    next
      case (Some target)
      obtain sg printed where
        p: "process_indexfile (joinpath (joinpath d name) ''indexfile.txt'') (Some target) = (sg, printed)"
        by (cases "process_indexfile (joinpath (joinpath d name) ''indexfile.txt'') (Some target)")
      show ?thesis
      proof (cases sg)
        case None
        with p Some Pair Directory show ?thesis
          by (simp add: scan_entry_no_signature folder_result_def folder_signature_def
                   folder_output_def extract_plate_barcode_hd)
      next
        case (Some s)
        with p \<open>map_of children ''indexfile.txt'' = Some target\<close> Pair Directory show ?thesis
          by (simp add: scan_entry_signature folder_result_def folder_signature_def
                   folder_output_def extract_plate_barcode_hd)
      qed
    qed
  qed
qed

lemma scan_entries_state:
  "scan_entries d entries (results, out) =
     Inr (results @ List.map_filter (folder_result d) entries,
          out @ concat (map (folder_output d) entries))"
proof (induction entries arbitrary: results out)
  case Nil
  then show ?case by (simp add: List.map_filter_simps)
next
  case (Cons entry entries)
  show ?case
    by (simp add: scan_entry_state Cons.IH List.map_filter_simps split: option.splits)
qed

lemma process_indexfiles_directory_state:
  "process_indexfiles_directory d (Directory entries) =
     Inr (List.map_filter (folder_result d) entries, concat (map (folder_output d) entries))"
  by (simp add: process_indexfiles_directory_def scan_entries_state)

lemma set_map_filter_iff:
  "y \<in> set (List.map_filter f xs) \<longleftrightarrow> (\<exists>x \<in> set xs. f x = Some y)"
  by (induction xs) (auto simp: List.map_filter_simps split: option.splits)

lemma folder_result_Some:
  assumes "folder_result d entry = Some (b, s)"
  shows "\<exists>name children nd. entry = (name, Directory children) \<and>
           extract_plate_barcode name = Inr b \<and>
           map_of children ''indexfile.txt'' = Some nd \<and>
           fst (process_indexfile (joinpath (joinpath d name) ''indexfile.txt'') (Some nd)) = Some s"
proof (cases entry)
  case (Pair name nd)
  with assms show ?thesis
    by (cases nd)
       (auto simp: folder_result_def folder_signature_def extract_plate_barcode_hd
             split: option.splits)
qed

lemma folder_no_signature:
  assumes "map_of children ''indexfile.txt'' = Some nd"
    and "fst (process_indexfile (joinpath (joinpath d name) ''indexfile.txt'') (Some nd)) = None"
  shows "folder_result d (name, Directory children) = None"
    and "\<exists>printed. folder_output d (name, Directory children) =
           printed @ [''Warning: No measurement signature found for '' @ hd (split_on ''__'' name)]"
proof -
  show "folder_result d (name, Directory children) = None"
    using assms by (simp add: folder_result_def folder_signature_def extract_plate_barcode_hd)
  obtain printed where
    "process_indexfile (joinpath (joinpath d name) ''indexfile.txt'') (Some nd) = (None, printed)"
    using assms(2)
    by (cases "process_indexfile (joinpath (joinpath d name) ''indexfile.txt'') (Some nd)") simp
  from scan_entry_no_signature[OF assms(1) this, of "[]" "[]"]
  show "\<exists>printed. folder_output d (name, Directory children) =
           printed @ [''Warning: No measurement signature found for '' @ hd (split_on ''__'' name)]"
    by (simp add: folder_output_def)
qed

lemma folder_output_in_scan:
  assumes "entry \<in> set entries" "line \<in> set (folder_output d entry)"
  shows "line \<in> set (concat (map (folder_output d) entries))"
  using assms by auto

lemma folder_non_directory:
  assumes "\<not> is_directory nd"
  shows "folder_result d (name, nd) = None" "folder_output d (name, nd) = []"
  using assms
  by (cases nd; simp add: is_directory_def folder_result_def folder_signature_def
        folder_output_def scan_entry_file extract_plate_barcode_hd)+

lemma map_filter_directories:
  "List.map_filter (folder_result d) (filter (\<lambda>e. is_directory (snd e)) entries) =
   List.map_filter (folder_result d) entries"
proof (induction entries)
  case Nil
  then show ?case by simp
next
  case (Cons e entries)
  obtain name nd where e: "e = (name, nd)" by (cases e)
  show ?case
  proof (cases "is_directory nd")
    case True
    with Cons.IH show ?thesis
      by (simp add: e List.map_filter_simps split: option.splits)
  next
    case False
    with Cons.IH folder_non_directory(1)[OF False, of d name] show ?thesis
      by (simp add: e List.map_filter_simps split: option.splits)
  qed
qed

lemma output_directories:
  "concat (map (folder_output d) (filter (\<lambda>e. is_directory (snd e)) entries)) =
   concat (map (folder_output d) entries)"
proof (induction entries)
  case Nil
  then show ?case by simp
next
  case (Cons e entries)
  obtain name nd where e: "e = (name, nd)" by (cases e)
  show ?case
  proof (cases "is_directory nd")
    case True
    with Cons.IH show ?thesis by (simp add: e)
  next
    case False
    with Cons.IH folder_non_directory(2)[OF False, of d name] show ?thesis
      by (simp add: e)
  qed
qed

lemma scan_entry_children:
  assumes "map_of children ''indexfile.txt'' = map_of children' ''indexfile.txt''"
  shows "scan_entry d (name, Directory children) st = scan_entry d (name, Directory children') st"
  by (cases st) (simp add: scan_entry_def Let_def extract_plate_barcode_hd assms)

lemma folder_missing:
  assumes "map_of children ''indexfile.txt'' = None"
  shows "folder_result d (name, Directory children) = None"
    and "folder_output d (name, Directory children) =
           [''Warning: indexfile.txt not found in '' @ joinpath d name]"
  using assms scan_entry_missing[OF assms, of d name "[]" "[]"]
  by (simp_all add: folder_result_def folder_signature_def folder_output_def
        extract_plate_barcode_hd)

lemma joinpath_suffix: "\<exists>pre. joinpath path name = pre @ name"
  by (auto simp: joinpath_def)

lemma barcode_100: "hd (split_on ''__'' ''100__A'') = ''100''"
  by simp

text \<open>
  Claim C6. The scan of a root directory returns normally, and its result list holds, in
  the order of the entries, exactly one pair for every subdirectory whose file
  \<open>indexfile.txt\<close> yields a signature. Every pair of the list has both components derived:
  the barcode is what \<open>extract_plate_barcode\<close> returns for the folder name, and the
  signature is a non-empty string in UUID form that \<open>process_indexfile\<close> returned for the
  file of that folder. A folder whose file yields no signature contributes no pair, and a
  warning with its barcode is printed.
\<close>
theorem process_indexfiles_directory_results:
  "\<exists>results out.
     process_indexfiles_directory indexfiles_dir (Directory entries) = Inr (results, out) \<and>
     results = List.map_filter (folder_result indexfiles_dir) entries \<and>
     (\<forall>b s. (b, s) \<in> set results \<longrightarrow>
        s \<noteq> [] \<and> uuid_shaped s \<and>
        (\<exists>name children nd. (name, Directory children) \<in> set entries \<and>
           extract_plate_barcode name = Inr b \<and>
           map_of children ''indexfile.txt'' = Some nd \<and>
           fst (process_indexfile (joinpath (joinpath indexfiles_dir name) ''indexfile.txt'')
                  (Some nd)) = Some s)) \<and>
     (\<forall>name children nd. (name, Directory children) \<in> set entries \<and>
           map_of children ''indexfile.txt'' = Some nd \<and>
           fst (process_indexfile (joinpath (joinpath indexfiles_dir name) ''indexfile.txt'')
                  (Some nd)) = None \<longrightarrow>
        folder_result indexfiles_dir (name, Directory children) = None \<and>
        (\<exists>b. extract_plate_barcode name = Inr b \<and>
           ''Warning: No measurement signature found for '' @ b \<in> set out))"
proof -
  let ?results = "List.map_filter (folder_result indexfiles_dir) entries"
  let ?out = "concat (map (folder_output indexfiles_dir) entries)"
  have A: "process_indexfiles_directory indexfiles_dir (Directory entries) = Inr (?results, ?out)"
    by (rule process_indexfiles_directory_state)
  have B: "\<forall>b s. (b, s) \<in> set ?results \<longrightarrow>
        s \<noteq> [] \<and> uuid_shaped s \<and>
        (\<exists>name children nd. (name, Directory children) \<in> set entries \<and>
           extract_plate_barcode name = Inr b \<and>
           map_of children ''indexfile.txt'' = Some nd \<and>
           fst (process_indexfile (joinpath (joinpath indexfiles_dir name) ''indexfile.txt'')
                  (Some nd)) = Some s)"
  proof (intro allI impI)
    fix b s
    assume "(b, s) \<in> set ?results"
    then obtain entry where
      e: "entry \<in> set entries" "folder_result indexfiles_dir entry = Some (b, s)"
      by (auto simp: set_map_filter_iff)
    from folder_result_Some[OF e(2)] obtain name children nd where
      f: "entry = (name, Directory children)" "extract_plate_barcode name = Inr b"
         "map_of children ''indexfile.txt'' = Some nd"
         "fst (process_indexfile (joinpath (joinpath indexfiles_dir name) ''indexfile.txt'')
                 (Some nd)) = Some s"
      by blast
    from f(4) have u: "uuid_shaped s" by (rule process_indexfile_Some_uuid)
    then have ne: "s \<noteq> []" by (rule uuid_shaped_nonempty)
    from e(1) f have "\<exists>name children nd. (name, Directory children) \<in> set entries \<and>
           extract_plate_barcode name = Inr b \<and>
           map_of children ''indexfile.txt'' = Some nd \<and>
           fst (process_indexfile (joinpath (joinpath indexfiles_dir name) ''indexfile.txt'')
                  (Some nd)) = Some s"
      by blast
    with u ne show "s \<noteq> [] \<and> uuid_shaped s \<and>
        (\<exists>name children nd. (name, Directory children) \<in> set entries \<and>
           extract_plate_barcode name = Inr b \<and>
           map_of children ''indexfile.txt'' = Some nd \<and>
           fst (process_indexfile (joinpath (joinpath indexfiles_dir name) ''indexfile.txt'')
                  (Some nd)) = Some s)"
      by blast
  qed
  have C: "\<forall>name children nd. (name, Directory children) \<in> set entries \<and>
           map_of children ''indexfile.txt'' = Some nd \<and>
           fst (process_indexfile (joinpath (joinpath indexfiles_dir name) ''indexfile.txt'')
                  (Some nd)) = None \<longrightarrow>
        folder_result indexfiles_dir (name, Directory children) = None \<and>
        (\<exists>b. extract_plate_barcode name = Inr b \<and>
           ''Warning: No measurement signature found for '' @ b \<in> set ?out)"
  proof (intro allI impI)
    fix name children nd
    assume a: "(name, Directory children) \<in> set entries \<and>
           map_of children ''indexfile.txt'' = Some nd \<and>
           fst (process_indexfile (joinpath (joinpath indexfiles_dir name) ''indexfile.txt'')
                  (Some nd)) = None"
    then have m: "map_of children ''indexfile.txt'' = Some nd"
      and n: "fst (process_indexfile (joinpath (joinpath indexfiles_dir name) ''indexfile.txt'')
                  (Some nd)) = None"
      and i: "(name, Directory children) \<in> set entries"
      by simp_all
    have r: "folder_result indexfiles_dir (name, Directory children) = None"
      using m n by (rule folder_no_signature(1))
    from folder_no_signature(2)[OF m n] obtain printed where
      "folder_output indexfiles_dir (name, Directory children) =
         printed @ [''Warning: No measurement signature found for '' @ hd (split_on ''__'' name)]"
      by blast
    then have "''Warning: No measurement signature found for '' @ hd (split_on ''__'' name)
                 \<in> set (folder_output indexfiles_dir (name, Directory children))"
      by simp
    with i have "''Warning: No measurement signature found for '' @ hd (split_on ''__'' name)
                 \<in> set ?out"
      by (rule folder_output_in_scan)
    then have "\<exists>b. extract_plate_barcode name = Inr b \<and>
           ''Warning: No measurement signature found for '' @ b \<in> set ?out"
      by (simp add: extract_plate_barcode_hd)
    with r show "folder_result indexfiles_dir (name, Directory children) = None \<and>
        (\<exists>b. extract_plate_barcode name = Inr b \<and>
           ''Warning: No measurement signature found for '' @ b \<in> set ?out)"
      by blast
  qed
  from A B C show ?thesis by blast
qed

theorem process_indexfiles_directory_results_witness:
  "\<exists>results out.
     process_indexfiles_directory ''data''
       (Directory [(''100__A'', Directory [(''indexfile.txt'', RegularFile example_indexfile)]),
                   (''300__C'', Directory [(''indexfile.txt'', RegularFile (''Row'' @ [TAB] @ ''URL'' @ [LF]))]),
                   (''notes.txt'', RegularFile ''x'')])
       = Inr (results, out) \<and>
     results = [(''100'', ''abc12345-1111-2222-3333-444455556666'')] \<and>
     uuid_shaped ''abc12345-1111-2222-3333-444455556666'' \<and>
     fst (process_indexfile (joinpath (joinpath ''data'' ''300__C'') ''indexfile.txt'')
            (Some (RegularFile (''Row'' @ [TAB] @ ''URL'' @ [LF])))) = None \<and>
     ''Warning: No measurement signature found for 300'' \<in> set out"
proof -
  let ?c = "[(''indexfile.txt'', RegularFile (''Row'' @ [TAB] @ ''URL'' @ [LF]))]"
  let ?E = "[(''100__A'', Directory [(''indexfile.txt'', RegularFile example_indexfile)]),
             (''300__C'', Directory ?c),
             (''notes.txt'', RegularFile ''x'')]"
  let ?U = "''abc12345-1111-2222-3333-444455556666''"
  from process_indexfiles_directory_results[of "''data''" ?E]
  obtain results out where
    A: "process_indexfiles_directory ''data'' (Directory ?E) = Inr (results, out)" and
    R: "results = List.map_filter (folder_result ''data'') ?E" and
    B: "\<forall>b s. (b, s) \<in> set results \<longrightarrow>
        s \<noteq> [] \<and> uuid_shaped s \<and>
        (\<exists>name children nd. (name, Directory children) \<in> set ?E \<and>
           extract_plate_barcode name = Inr b \<and>
           map_of children ''indexfile.txt'' = Some nd \<and>
           fst (process_indexfile (joinpath (joinpath ''data'' name) ''indexfile.txt'')
                  (Some nd)) = Some s)" and
    C: "\<forall>name children nd. (name, Directory children) \<in> set ?E \<and>
           map_of children ''indexfile.txt'' = Some nd \<and>
           fst (process_indexfile (joinpath (joinpath ''data'' name) ''indexfile.txt'')
                  (Some nd)) = None \<longrightarrow>
        folder_result ''data'' (name, Directory children) = None \<and>
        (\<exists>b. extract_plate_barcode name = Inr b \<and>
           ''Warning: No measurement signature found for '' @ b \<in> set out)"
    by blast
  have ev: "List.map_filter (folder_result ''data'') ?E = [(''100'', ?U)]"
    by code_simp
  with R have R': "results = [(''100'', ?U)]" by (rule trans)
  then have "(''100'', ?U) \<in> set results" by simp
  with B have u: "uuid_shaped ?U" by blast
  have n: "fst (process_indexfile (joinpath (joinpath ''data'' ''300__C'') ''indexfile.txt'')
            (Some (RegularFile (''Row'' @ [TAB] @ ''URL'' @ [LF])))) = None"
    by code_simp
  have h: "(''300__C'', Directory ?c) \<in> set ?E \<and>
           map_of ?c ''indexfile.txt'' = Some (RegularFile (''Row'' @ [TAB] @ ''URL'' @ [LF])) \<and>
           fst (process_indexfile (joinpath (joinpath ''data'' ''300__C'') ''indexfile.txt'')
                  (Some (RegularFile (''Row'' @ [TAB] @ ''URL'' @ [LF])))) = None"
    using n by simp
  with C have "\<exists>b. extract_plate_barcode ''300__C'' = Inr b \<and>
           ''Warning: No measurement signature found for '' @ b \<in> set out"
    by blast
  then obtain b where b: "extract_plate_barcode ''300__C'' = Inr b"
    "''Warning: No measurement signature found for '' @ b \<in> set out" by blast
  have "extract_plate_barcode ''300__C'' = Inr ''300''"
    by (simp add: extract_plate_barcode_def subscript_def)
  with b have w: "''Warning: No measurement signature found for 300'' \<in> set out" by simp
  from A R' u n w show ?thesis by blast
qed

text \<open>
  Claim C8. The scan looks at the immediate subdirectories of the root only: entries of
  the root that are no directories change nothing, and of a subdirectory only the entry
  \<open>indexfile.txt\<close> directly inside it counts. A subdirectory without that entry contributes
  no result, and the warning that names its path is printed. On a root with the folders
  \<open>100__A\<close>, whose metadata file yields a signature, and \<open>200__B\<close>, which has no metadata
  file, the scan returns exactly one result, for the barcode \<open>100\<close>, and the warning for
  the path of \<open>200__B\<close>, which ends in \<open>200__B\<close>.
\<close>
theorem process_indexfiles_directory_immediate:
  "process_indexfiles_directory indexfiles_dir (Directory entries) =
     process_indexfiles_directory indexfiles_dir
       (Directory (filter (\<lambda>e. is_directory (snd e)) entries)) \<and>
   (map_of children ''indexfile.txt'' = map_of children' ''indexfile.txt'' \<longrightarrow>
      scan_entry indexfiles_dir (name, Directory children) st =
      scan_entry indexfiles_dir (name, Directory children') st) \<and>
   (map_of children ''indexfile.txt'' = None \<longrightarrow>
      scan_entry indexfiles_dir (name, Directory children) (results, out) =
        Inr (results, out @ [''Warning: indexfile.txt not found in '' @ joinpath indexfiles_dir name]) \<and>
      ((name, Directory children) \<in> set entries \<longrightarrow>
         (\<exists>rs printed. process_indexfiles_directory indexfiles_dir (Directory entries) = Inr (rs, printed) \<and>
            ''Warning: indexfile.txt not found in '' @ joinpath indexfiles_dir name \<in> set printed))) \<and>
   (map_of children_a ''indexfile.txt'' = Some nd \<and>
    process_indexfile (joinpath (joinpath indexfiles_dir ''100__A'') ''indexfile.txt'') (Some nd)
      = (Some signature, lines) \<and>
    map_of children_b ''indexfile.txt'' = None \<longrightarrow>
      process_indexfiles_directory indexfiles_dir
        (Directory [(''100__A'', Directory children_a), (''200__B'', Directory children_b)])
      = Inr ([(''100'', signature)],
             lines @ [''Processed: 100 -> '' @ signature,
                      ''Warning: indexfile.txt not found in '' @ joinpath indexfiles_dir ''200__B'']) \<and>
      (\<exists>pre. joinpath indexfiles_dir ''200__B'' = pre @ ''200__B''))"
proof (intro conjI impI)
  show "process_indexfiles_directory indexfiles_dir (Directory entries) =
     process_indexfiles_directory indexfiles_dir
       (Directory (filter (\<lambda>e. is_directory (snd e)) entries))"
    by (simp only: process_indexfiles_directory_state map_filter_directories output_directories)
next
  assume "map_of children ''indexfile.txt'' = map_of children' ''indexfile.txt''"
  then show "scan_entry indexfiles_dir (name, Directory children) st =
      scan_entry indexfiles_dir (name, Directory children') st"
    by (rule scan_entry_children)
next
  assume "map_of children ''indexfile.txt'' = None"
  then show "scan_entry indexfiles_dir (name, Directory children) (results, out) =
        Inr (results, out @ [''Warning: indexfile.txt not found in '' @ joinpath indexfiles_dir name])"
    by (rule scan_entry_missing)
next
  assume m: "map_of children ''indexfile.txt'' = None"
    and i: "(name, Directory children) \<in> set entries"
  have "''Warning: indexfile.txt not found in '' @ joinpath indexfiles_dir name
          \<in> set (folder_output indexfiles_dir (name, Directory children))"
    by (simp add: folder_missing(2)[OF m])
  with i have "''Warning: indexfile.txt not found in '' @ joinpath indexfiles_dir name
          \<in> set (concat (map (folder_output indexfiles_dir) entries))"
    by (rule folder_output_in_scan)
  then show "\<exists>rs printed. process_indexfiles_directory indexfiles_dir (Directory entries) = Inr (rs, printed) \<and>
            ''Warning: indexfile.txt not found in '' @ joinpath indexfiles_dir name \<in> set printed"
    using process_indexfiles_directory_state[of indexfiles_dir entries] by blast
next
  assume a: "map_of children_a ''indexfile.txt'' = Some nd \<and>
    process_indexfile (joinpath (joinpath indexfiles_dir ''100__A'') ''indexfile.txt'') (Some nd)
      = (Some signature, lines) \<and>
    map_of children_b ''indexfile.txt'' = None"
  then have a1: "map_of children_a ''indexfile.txt'' = Some nd"
    and a2: "process_indexfile (joinpath (joinpath indexfiles_dir ''100__A'') ''indexfile.txt'') (Some nd)
      = (Some signature, lines)"
    and a3: "map_of children_b ''indexfile.txt'' = None"
    by blast+
  have s1: "scan_entry indexfiles_dir (''100__A'', Directory children_a) ([], []) =
      Inr ([] @ [(hd (split_on ''__'' ''100__A''), signature)],
           [] @ lines @ [''Processed: '' @ hd (split_on ''__'' ''100__A'') @ '' -> '' @ signature])"
    using a1 a2 by (rule scan_entry_signature)
  have s2: "\<And>rs os. scan_entry indexfiles_dir (''200__B'', Directory children_b) (rs, os) =
      Inr (rs, os @ [''Warning: indexfile.txt not found in '' @ joinpath indexfiles_dir ''200__B''])"
    using a3 by (rule scan_entry_missing)
  show "process_indexfiles_directory indexfiles_dir
        (Directory [(''100__A'', Directory children_a), (''200__B'', Directory children_b)])
      = Inr ([(''100'', signature)],
             lines @ [''Processed: 100 -> '' @ signature,
                      ''Warning: indexfile.txt not found in '' @ joinpath indexfiles_dir ''200__B''])"
    unfolding process_indexfiles_directory_def
    by (simp add: s1 s2 barcode_100 del: split_on.simps)
next
  show "\<exists>pre. joinpath indexfiles_dir ''200__B'' = pre @ ''200__B''"
    by (rule joinpath_suffix)
qed

theorem process_indexfiles_directory_immediate_witness:
  "process_indexfile (joinpath (joinpath ''data'' ''100__A'') ''indexfile.txt'')
       (Some (RegularFile example_indexfile))
     = (Some ''abc12345-1111-2222-3333-444455556666'', []) \<and>
   process_indexfiles_directory ''data''
       (Directory [(''100__A'', Directory [(''indexfile.txt'', RegularFile example_indexfile)]),
                   (''200__B'', Directory [])])
     = Inr ([(''100'', ''abc12345-1111-2222-3333-444455556666'')],
            [''Processed: 100 -> abc12345-1111-2222-3333-444455556666'',
             ''Warning: indexfile.txt not found in data/200__B'']) \<and>
   map_of [(''sub'', Directory [(''indexfile.txt'', RegularFile example_indexfile)])] ''indexfile.txt''
     = None \<and>
   scan_entry ''data''
       (''200__B'', Directory [(''sub'', Directory [(''indexfile.txt'', RegularFile example_indexfile)])])
       ([], [])
     = Inr ([], [''Warning: indexfile.txt not found in data/200__B'']) \<and>
   (\<exists>rs printed.
      process_indexfiles_directory ''data''
        (Directory [(''notes.txt'', RegularFile ''x''),
                    (''200__B'', Directory [(''sub'', Directory [(''indexfile.txt'', RegularFile example_indexfile)])])])
        = Inr (rs, printed) \<and>
      ''Warning: indexfile.txt not found in data/200__B'' \<in> set printed) \<and>
   process_indexfiles_directory ''data''
       (Directory [(''notes.txt'', RegularFile ''x''),
                   (''200__B'', Directory [(''sub'', Directory [(''indexfile.txt'', RegularFile example_indexfile)])])])
     = process_indexfiles_directory ''data''
       (Directory (filter (\<lambda>e. is_directory (snd e))
          [(''notes.txt'', RegularFile ''x''),
           (''200__B'', Directory [(''sub'', Directory [(''indexfile.txt'', RegularFile example_indexfile)])])]))"
proof -
  let ?U = "''abc12345-1111-2222-3333-444455556666''"
  let ?nested = "[(''sub'', Directory [(''indexfile.txt'', RegularFile example_indexfile)])]"
  let ?ca = "[(''indexfile.txt'', RegularFile example_indexfile)]"
  let ?E = "[(''notes.txt'', RegularFile ''x''), (''200__B'', Directory ?nested)]"
  note t = process_indexfiles_directory_immediate[where indexfiles_dir = "''data''"
      and entries = ?E and children = ?nested and children' = "[]" and name = "''200__B''"
      and st = "([], [])" and results = "[]" and out = "[]" and children_a = ?ca
      and nd = "RegularFile example_indexfile" and signature = ?U and lines = "[]"
      and children_b = "[]"]
  have j: "joinpath ''data'' ''200__B'' = ''data/200__B''"
    by (simp add: joinpath_def)
  have a2: "process_indexfile (joinpath (joinpath ''data'' ''100__A'') ''indexfile.txt'')
       (Some (RegularFile example_indexfile)) = (Some ?U, [])"
    by code_simp
  have a1: "map_of ?ca ''indexfile.txt'' = Some (RegularFile example_indexfile)"
    by simp
  have a3: "map_of ([] :: (string \<times> node) list) ''indexfile.txt'' = None"
    by simp
  have m: "map_of ?nested ''indexfile.txt'' = None"
    by simp
  have i: "(''200__B'', Directory ?nested) \<in> set ?E"
    by simp
  have c1: "process_indexfiles_directory ''data''
       (Directory [(''100__A'', Directory ?ca), (''200__B'', Directory [])])
     = Inr ([(''100'', ?U)],
            [] @ [''Processed: 100 -> '' @ ?U,
                  ''Warning: indexfile.txt not found in '' @ joinpath ''data'' ''200__B''])"
    using t a1 a2 a3 by blast
  have c2: "scan_entry ''data'' (''200__B'', Directory ?nested) ([], [])
     = Inr ([], [] @ [''Warning: indexfile.txt not found in '' @ joinpath ''data'' ''200__B''])"
    using t m by blast
  have c3: "\<exists>rs printed.
      process_indexfiles_directory ''data'' (Directory ?E) = Inr (rs, printed) \<and>
      ''Warning: indexfile.txt not found in '' @ joinpath ''data'' ''200__B'' \<in> set printed"
    using t m i by blast
  have c4: "process_indexfiles_directory ''data'' (Directory ?E)
     = process_indexfiles_directory ''data'' (Directory (filter (\<lambda>e. is_directory (snd e)) ?E))"
    using t by blast
  from c1 have c1': "process_indexfiles_directory ''data''
       (Directory [(''100__A'', Directory ?ca), (''200__B'', Directory [])])
     = Inr ([(''100'', ?U)],
            [''Processed: 100 -> abc12345-1111-2222-3333-444455556666'',
             ''Warning: indexfile.txt not found in data/200__B''])"
    by (simp add: j)
  from c2 have c2': "scan_entry ''data'' (''200__B'', Directory ?nested) ([], [])
     = Inr ([], [''Warning: indexfile.txt not found in data/200__B''])"
    by (simp add: j)
  from c3 have c3': "\<exists>rs printed.
      process_indexfiles_directory ''data'' (Directory ?E) = Inr (rs, printed) \<and>
      ''Warning: indexfile.txt not found in data/200__B'' \<in> set printed"
    by (simp add: j)
  show ?thesis
    by (intro conjI; fact)
qed

text \<open>
  Claim C10. For a metadata file whose header has a URL column and whose first data line
  is empty or absent (or blank), \<open>process_indexfile\<close> returns \<open>None\<close> and raises nothing; the
  scan prints the warning that no signature was found for the barcode of the folder, adds
  no result and goes on with the remaining entries; and the scan of any list of entries
  returns normally.
\<close>
theorem process_indexfile_header_only:
  assumes "find_url_col (split_on [TAB] (header_of (universal_newlines raw))) 0 = Some i"
    and "first_line_of (universal_newlines raw) = []"
  shows "process_indexfile path (Some (RegularFile raw)) = (None, []) \<and>
         (map_of children ''indexfile.txt'' = Some (RegularFile raw) \<longrightarrow>
            (\<exists>b. extract_plate_barcode name = Inr b \<and>
               scan_entries indexfiles_dir ((name, Directory children) # entries) (results, out) =
               scan_entries indexfiles_dir entries
                 (results, out @ [''Warning: No measurement signature found for '' @ b]))) \<and>
         (\<exists>state. scan_entries indexfiles_dir entries (results, out) = Inr state)"
proof (intro conjI impI)
  have p: "\<And>path. process_indexfile path (Some (RegularFile raw)) = (None, [])"
    using read_indexfile_url[OF assms(1)] assms(2)
    by (simp add: process_indexfile_regular)
  show "process_indexfile path (Some (RegularFile raw)) = (None, [])" by (rule p)
  show "\<exists>state. scan_entries indexfiles_dir entries (results, out) = Inr state"
    by (simp add: scan_entries_state)
  assume m: "map_of children ''indexfile.txt'' = Some (RegularFile raw)"
  have "scan_entry indexfiles_dir (name, Directory children) (results, out) =
           Inr (results,
                out @ [] @ [''Warning: No measurement signature found for '' @ hd (split_on ''__'' name)])"
    using m p by (rule scan_entry_no_signature)
  then have "scan_entries indexfiles_dir ((name, Directory children) # entries) (results, out) =
               scan_entries indexfiles_dir entries
                 (results, out @ [''Warning: No measurement signature found for '' @ hd (split_on ''__'' name)])"
    by simp
  then show "\<exists>b. extract_plate_barcode name = Inr b \<and>
               scan_entries indexfiles_dir ((name, Directory children) # entries) (results, out) =
               scan_entries indexfiles_dir entries
                 (results, out @ [''Warning: No measurement signature found for '' @ b])"
    by (simp add: extract_plate_barcode_hd)
qed

theorem process_indexfile_header_only_witness:
  "find_url_col (split_on [TAB] (header_of (universal_newlines (''Row'' @ [TAB] @ ''URL'' @ [LF])))) 0
     = Some 1 \<and>
   first_line_of (universal_newlines (''Row'' @ [TAB] @ ''URL'' @ [LF])) = [] \<and>
   process_indexfile ''data/300__C/indexfile.txt'' (Some (RegularFile (''Row'' @ [TAB] @ ''URL'' @ [LF])))
     = (None, []) \<and>
   scan_entries ''data''
       [(''300__C'', Directory [(''indexfile.txt'', RegularFile (''Row'' @ [TAB] @ ''URL'' @ [LF]))])]
       ([], [])
     = Inr ([], [''Warning: No measurement signature found for 300''])"
proof -
  let ?raw = "''Row'' @ [TAB] @ ''URL'' @ [LF]"
  let ?c = "[(''indexfile.txt'', RegularFile ?raw)]"
  have a: "find_url_col (split_on [TAB] (header_of (universal_newlines ?raw))) 0 = Some 1"
    by code_simp
  have b: "first_line_of (universal_newlines ?raw) = []"
    by code_simp
  note t = process_indexfile_header_only[OF a b, where path = "''data/300__C/indexfile.txt''"
      and children = ?c and name = "''300__C''" and indexfiles_dir = "''data''"
      and entries = "[]" and results = "[]" and out = "[]"]
  have m: "map_of ?c ''indexfile.txt'' = Some (RegularFile ?raw)" by simp
  have c1: "process_indexfile ''data/300__C/indexfile.txt'' (Some (RegularFile ?raw)) = (None, [])"
    using t by blast
  have "\<exists>b. extract_plate_barcode ''300__C'' = Inr b \<and>
               scan_entries ''data'' [(''300__C'', Directory ?c)] ([], []) =
               scan_entries ''data'' []
                 ([], [] @ [''Warning: No measurement signature found for '' @ b])"
    using t m by blast
  then obtain b where b: "extract_plate_barcode ''300__C'' = Inr b"
    "scan_entries ''data'' [(''300__C'', Directory ?c)] ([], []) =
       scan_entries ''data'' [] ([], [] @ [''Warning: No measurement signature found for '' @ b])"
    by blast
  have "extract_plate_barcode ''300__C'' = Inr ''300''"
    by (simp add: extract_plate_barcode_def subscript_def)
  with b have c2: "scan_entries ''data'' [(''300__C'', Directory ?c)] ([], [])
     = Inr ([], [''Warning: No measurement signature found for 300''])"
    by simp
  show ?thesis
    by (intro conjI; fact)
qed

section \<open>Sorting and writing the results\<close>

lemma py_int_Inl_ValueError: "py_int s = Inl e \<Longrightarrow> \<exists>m. e = ValueError m"
  by (auto simp: py_int_def Let_def simp del: str_nat.simps split: option.splits if_splits)

lemma int_keys_Inr:
  assumes "\<forall>r \<in> set results. \<exists>k. py_int (fst r) = Inr k"
  shows "int_keys results = Inr (map (\<lambda>r. (barcode_key r, r)) results)"
  using assms
proof (induction results)
  case Nil
  then show ?case by simp
next
  case (Cons r results)
  then obtain k where "py_int (fst r) = Inr k" by auto
  with Cons show ?case by (simp add: barcode_key_def)
qed

lemma int_keys_Inl:
  assumes "r \<in> set results" "py_int (fst r) = Inl e"
  shows "\<exists>bad \<in> set results. \<exists>message.
           py_int (fst bad) = Inl (ValueError message) \<and>
           int_keys results = Inl (ValueError message)"
  using assms
proof (induction results)
  case Nil
  then show ?case by simp
next
  case (Cons x results)
  show ?case
  proof (cases "py_int (fst x)")
    case (Inl e')
    then have "int_keys (x # results) = Inl e'" by simp
    with py_int_Inl_ValueError[OF Inl] Inl show ?thesis by auto
  next
    case (Inr k)
    with Cons.prems have "r \<in> set results" by auto
    from Cons.IH[OF this Cons.prems(2)] obtain bad message where
      "bad \<in> set results"
      "py_int (fst bad) = Inl (ValueError message)"
      "int_keys results = Inl (ValueError message)"
      by blast
    with Inr show ?thesis by auto
  qed
qed

lemma insort_key_decorated:
  "insort_key fst (f x, x) (map (\<lambda>y. (f y, y)) ys) = map (\<lambda>y. (f y, y)) (insort_key f x ys)"
  by (induction ys) simp_all

lemma sort_key_decorated:
  "map snd (sort_key fst (map (\<lambda>y. (f y, y)) xs)) = sort_key f xs"
proof -
  have "sort_key fst (map (\<lambda>y. (f y, y)) xs) = map (\<lambda>y. (f y, y)) (sort_key f xs)"
    by (induction xs) (simp_all add: insort_key_decorated)
  then show ?thesis by (simp add: comp_def)
qed

lemma sorted_by_int_Inr:
  assumes "\<forall>r \<in> set results. \<exists>k. py_int (fst r) = Inr k"
  shows "sorted_by_int results = Inr (sort_key barcode_key results)"
  by (simp add: sorted_by_int_def int_keys_Inr[OF assms] sort_key_decorated)

lemma save_results_to_csv_Inr:
  assumes "\<forall>r \<in> set results. \<exists>k. py_int (fst r) = Inr k"
    and "open_write output_path target = Inr ()"
  shows "save_results_to_csv results output_path target =
           (Inr (), Some (RegularFile (csv_of (sort_key barcode_key results))),
            [''Results saved to: '' @ output_path])"
  by (simp add: save_results_to_csv_def sorted_by_int_Inr[OF assms(1)] assms(2) csv_of_def
        case_prod_unfold)

lemma map_of_replace:
  assumes "name \<in> fst ` set entries"
  shows "map_of (map (\<lambda>(n, old). if n = name then (n, nd) else (n, old)) entries) name = Some nd"
  using assms
proof (induction entries)
  case Nil
  then show ?case by simp
next
  case (Cons x entries)
  obtain n old where x: "x = (n, old)" by (cases x)
  show ?case
  proof (cases "n = name")
    case True
    then show ?thesis by (simp add: x)
  next
    case False
    with Cons.prems have "name \<in> fst ` set entries" by (simp add: x)
    from Cons.IH[OF this] False show ?thesis by (simp add: x)
  qed
qed

lemma map_of_store_entry: "map_of (store_entry name nd entries) name = Some nd"
proof (cases "name \<in> fst ` set entries")
  case False
  then have "map_of entries name = None" by (simp only: map_of_eq_None_iff not_False_eq_True)
  then have "map_of (entries @ [(name, nd)]) name = Some nd"
    by (simp add: map_add_def)
  with False show ?thesis by (simp only: store_entry_def if_False)
next
  case True
  from map_of_replace[OF this] True show ?thesis by (simp only: store_entry_def if_True)
qed

lemma main_writes:
  assumes "process_indexfiles_directory input_dir (Directory entries) = Inr (results, printed)"
    and "results \<noteq> []"
    and "\<forall>r \<in> set results. \<exists>k. py_int (fst r) = Inr k"
    and "open_write (joinpath input_dir ''plates_measurement_signatures.csv'')
           (map_of entries ''plates_measurement_signatures.csv'') = Inr ()"
  shows "main input_dir (Some (Directory entries)) =
           (Inr 0,
            Some (Directory (store_entry ''plates_measurement_signatures.csv''
                    (RegularFile (csv_of (sort_key barcode_key results))) entries)),
            [''Processing indexfiles directory: '' @ input_dir] @ printed @
            [''Results saved to: '' @ joinpath input_dir ''plates_measurement_signatures.csv'',
             ''Successfully processed '' @ str_nat (length results) @ '' indexfiles''])"
  unfolding main_def
  using assms(1,2) save_results_to_csv_Inr[OF assms(3,4)]
  by (simp del: str_nat.simps)

lemma main_aborts:
  assumes "process_indexfiles_directory input_dir (Directory entries) = Inr (results, printed)"
    and "results \<noteq> []"
    and "save_results_to_csv results (joinpath input_dir ''plates_measurement_signatures.csv'')
           (map_of entries ''plates_measurement_signatures.csv'') = (Inl e, written, [])"
  shows "main input_dir (Some (Directory entries)) =
           (Inl e, Some (Directory entries),
            (''Processing indexfiles directory: '' @ input_dir) # printed)"
  unfolding main_def using assms by (simp del: str_nat.simps)

text \<open>
  Claim C3. If the result collection holds an entry whose barcode \<open>int\<close> cannot parse,
  \<open>save_results_to_csv\<close> ends with the \<open>ValueError\<close> that \<open>int\<close> raises on a barcode of the
  collection: nothing is written, what the output path names stays as it was (an
  existing file keeps its content), and nothing is printed. In \<open>main\<close> the exception ends
  the run and leaves the directory unchanged.
\<close>
theorem save_results_to_csv_non_numeric:
  assumes "(plate_barcode, signature) \<in> set results" and "py_int plate_barcode = Inl e"
  shows "\<exists>bad \<in> set results. \<exists>message.
           py_int (fst bad) = Inl (ValueError message) \<and>
           save_results_to_csv results output_path target =
             (Inl (ValueError message), target, []) \<and>
           (process_indexfiles_directory input_dir (Directory entries) = Inr (results, printed) \<longrightarrow>
              main input_dir (Some (Directory entries)) =
                (Inl (ValueError message), Some (Directory entries),
                 (''Processing indexfiles directory: '' @ input_dir) # printed))"
proof -
  from assms have "py_int (fst (plate_barcode, signature)) = Inl e" by simp
  from int_keys_Inl[OF assms(1) this] obtain bad message where
    b: "bad \<in> set results"
       "py_int (fst bad) = Inl (ValueError message)"
       "int_keys results = Inl (ValueError message)"
    by blast
  have s: "\<And>output_path target. save_results_to_csv results output_path target =
             (Inl (ValueError message), target, [])"
    by (simp add: save_results_to_csv_def sorted_by_int_def b(3))
  have ne: "results \<noteq> []" using assms(1) by auto
  have m: "process_indexfiles_directory input_dir (Directory entries) = Inr (results, printed) \<longrightarrow>
              main input_dir (Some (Directory entries)) =
                (Inl (ValueError message), Some (Directory entries),
                 (''Processing indexfiles directory: '' @ input_dir) # printed)"
    using main_aborts[OF _ ne s] by blast
  from b(1,2) s m show ?thesis by blast
qed

theorem save_results_to_csv_non_numeric_witness:
  "py_int ''A7'' =
     Inl (ValueError (''invalid literal for int() with base 10: '' @ [CHR 0x27] @ ''A7'' @ [CHR 0x27])) \<and>
   py_int ''10'' = Inr 10 \<and>
   save_results_to_csv [(''10'', ''uuid1''), (''A7'', ''uuid2'')] ''data/out.csv''
       (Some (RegularFile ''old''))
     = (Inl (ValueError (''invalid literal for int() with base 10: '' @ [CHR 0x27] @ ''A7'' @ [CHR 0x27])),
        Some (RegularFile ''old''), []) \<and>
   process_indexfiles_directory ''data''
       (Directory [(''A7__x'', Directory [(''indexfile.txt'', RegularFile example_indexfile)]),
                   (''plates_measurement_signatures.csv'', RegularFile ''old'')])
     = Inr ([(''A7'', ''abc12345-1111-2222-3333-444455556666'')],
            [''Processed: A7 -> abc12345-1111-2222-3333-444455556666'']) \<and>
   main ''data''
       (Some (Directory [(''A7__x'', Directory [(''indexfile.txt'', RegularFile example_indexfile)]),
                         (''plates_measurement_signatures.csv'', RegularFile ''old'')]))
     = (Inl (ValueError (''invalid literal for int() with base 10: '' @ [CHR 0x27] @ ''A7'' @ [CHR 0x27])),
        Some (Directory [(''A7__x'', Directory [(''indexfile.txt'', RegularFile example_indexfile)]),
                         (''plates_measurement_signatures.csv'', RegularFile ''old'')]),
        [''Processing indexfiles directory: data'',
         ''Processed: A7 -> abc12345-1111-2222-3333-444455556666''])"
proof -
  let ?U = "''abc12345-1111-2222-3333-444455556666''"
  let ?E = "[(''A7__x'', Directory [(''indexfile.txt'', RegularFile example_indexfile)]),
             (''plates_measurement_signatures.csv'', RegularFile ''old'')]"
  let ?V = "ValueError (''invalid literal for int() with base 10: '' @ [CHR 0x27] @ ''A7'' @ [CHR 0x27])"
  have a: "py_int ''A7'' = Inl ?V"
    by code_simp
  have b: "py_int ''10'' = Inr 10"
    by code_simp
  have p: "process_indexfiles_directory ''data'' (Directory ?E)
     = Inr ([(''A7'', ?U)], [''Processed: A7 -> abc12345-1111-2222-3333-444455556666''])"
    by code_simp
  have i1: "(''A7'', ''uuid2'') \<in> set [(''10'', ''uuid1''), (''A7'', ''uuid2'')]" by simp
  from save_results_to_csv_non_numeric[OF i1 a, of "''data/out.csv''" "Some (RegularFile ''old'')"]
  obtain bad message where
    bad: "bad \<in> set [(''10'', ''uuid1''), (''A7'', ''uuid2'')]"
      "py_int (fst bad) = Inl (ValueError message)"
      "save_results_to_csv [(''10'', ''uuid1''), (''A7'', ''uuid2'')] ''data/out.csv''
           (Some (RegularFile ''old''))
         = (Inl (ValueError message), Some (RegularFile ''old''), [])"
    by blast
  from bad(1) have "bad = (''10'', ''uuid1'') \<or> bad = (''A7'', ''uuid2'')" by simp
  then have "fst bad = ''A7''"
  proof
    assume "bad = (''10'', ''uuid1'')"
    with bad(2) b show ?thesis by simp
  next
    assume "bad = (''A7'', ''uuid2'')"
    then show ?thesis by simp
  qed
  with bad(2) a have "ValueError message = ?V" by simp
  with bad(3) have c: "save_results_to_csv [(''10'', ''uuid1''), (''A7'', ''uuid2'')] ''data/out.csv''
       (Some (RegularFile ''old'')) = (Inl ?V, Some (RegularFile ''old''), [])"
    by simp
  have i2: "(''A7'', ?U) \<in> set [(''A7'', ?U)]" by simp
  from save_results_to_csv_non_numeric[OF i2 a,
      where input_dir = "''data''" and entries = ?E
        and printed = "[''Processed: A7 -> abc12345-1111-2222-3333-444455556666'']"]
  obtain bad' message' where
    bad': "bad' \<in> set [(''A7'', ?U)]"
      "py_int (fst bad') = Inl (ValueError message')"
      "process_indexfiles_directory ''data'' (Directory ?E)
         = Inr ([(''A7'', ?U)], [''Processed: A7 -> abc12345-1111-2222-3333-444455556666'']) \<longrightarrow>
       main ''data'' (Some (Directory ?E)) =
         (Inl (ValueError message'), Some (Directory ?E),
          (''Processing indexfiles directory: '' @ ''data'') #
            [''Processed: A7 -> abc12345-1111-2222-3333-444455556666''])"
    by blast
  from bad'(1) have "fst bad' = ''A7''" by simp
  with bad'(2) a have "ValueError message' = ?V" by simp
  with bad'(3) p have m: "main ''data'' (Some (Directory ?E)) =
         (Inl ?V, Some (Directory ?E),
          [''Processing indexfiles directory: data'',
           ''Processed: A7 -> abc12345-1111-2222-3333-444455556666''])"
    by simp
  show ?thesis
    by (intro conjI; fact)
qed

text \<open>
  Claim C4. If \<open>int\<close> parses every barcode of the result collection (and the output file
  can be opened), \<open>save_results_to_csv\<close> writes the CSV whose first row is the header
  \<open>Plate_Barcode,Measurement_Signature\<close>, followed by one row for every entry: the rows are
  the entries sorted by the integer value of the barcode, ascending, entries of equal
  value in their order in the collection. \<open>main\<close> writes this CSV under the name
  \<open>plates_measurement_signatures.csv\<close> into the input directory. For the input
  \<open>[("200", "uuid2"), ("10", "uuid1")]\<close> the row \<open>10,uuid1\<close> is written before the row
  \<open>200,uuid2\<close>.
\<close>
theorem save_results_to_csv_sorted:
  assumes "\<forall>r \<in> set results. \<exists>k. py_int (fst r) = Inr k"
    and "open_write output_path target = Inr ()"
  shows "save_results_to_csv results output_path target =
           (Inr (), Some (RegularFile (csv_of (sort_key barcode_key results))),
            [''Results saved to: '' @ output_path]) \<and>
         csv_of (sort_key barcode_key results) =
           ''Plate_Barcode,Measurement_Signature'' @ [CR, LF] @
           concat (map (\<lambda>r. writerow [fst r, snd r]) (sort_key barcode_key results)) \<and>
         sorted (map barcode_key (sort_key barcode_key results)) \<and>
         mset (sort_key barcode_key results) = mset results \<and>
         (\<forall>k. filter (\<lambda>r. barcode_key r = k) (sort_key barcode_key results) =
              filter (\<lambda>r. barcode_key r = k) results) \<and>
         (\<forall>r \<in> set results. py_int (fst r) = Inr (barcode_key r)) \<and>
         (output_path = joinpath input_dir ''plates_measurement_signatures.csv'' \<and>
          target = map_of entries ''plates_measurement_signatures.csv'' \<and>
          results \<noteq> [] \<and>
          process_indexfiles_directory input_dir (Directory entries) = Inr (results, printed) \<longrightarrow>
            (\<exists>entries' out.
               main input_dir (Some (Directory entries)) = (Inr 0, Some (Directory entries'), out) \<and>
               map_of entries' ''plates_measurement_signatures.csv'' =
                 Some (RegularFile (csv_of (sort_key barcode_key results))))) \<and>
         save_results_to_csv [(''200'', ''uuid2''), (''10'', ''uuid1'')] output_path None =
           (Inr (),
            Some (RegularFile (''Plate_Barcode,Measurement_Signature'' @ [CR, LF] @
                               ''10,uuid1'' @ [CR, LF] @ ''200,uuid2'' @ [CR, LF])),
            [''Results saved to: '' @ output_path])"
proof (intro conjI allI ballI impI)
  show "save_results_to_csv results output_path target =
           (Inr (), Some (RegularFile (csv_of (sort_key barcode_key results))),
            [''Results saved to: '' @ output_path])"
    using assms by (rule save_results_to_csv_Inr)
  show "csv_of (sort_key barcode_key results) =
           ''Plate_Barcode,Measurement_Signature'' @ [CR, LF] @
           concat (map (\<lambda>r. writerow [fst r, snd r]) (sort_key barcode_key results))"
    by (simp add: csv_of_def writerow_def csv_field_def csv_special_def)
  show "sorted (map barcode_key (sort_key barcode_key results))"
    by (rule sorted_sort_key)
  show "mset (sort_key barcode_key results) = mset results"
    by (rule mset_sort)
  show "filter (\<lambda>r. barcode_key r = k) (sort_key barcode_key results) =
              filter (\<lambda>r. barcode_key r = k) results" for k
    by (rule sort_key_stable)
  show "py_int (fst r) = Inr (barcode_key r)" if "r \<in> set results" for r
    using assms(1) that by (auto simp: barcode_key_def)
next
  assume a: "output_path = joinpath input_dir ''plates_measurement_signatures.csv'' \<and>
          target = map_of entries ''plates_measurement_signatures.csv'' \<and>
          results \<noteq> [] \<and>
          process_indexfiles_directory input_dir (Directory entries) = Inr (results, printed)"
  then have p: "process_indexfiles_directory input_dir (Directory entries) = Inr (results, printed)"
    and ne: "results \<noteq> []"
    and ow: "open_write (joinpath input_dir ''plates_measurement_signatures.csv'')
           (map_of entries ''plates_measurement_signatures.csv'') = Inr ()"
    using assms(2) by simp_all
  from main_writes[OF p ne assms(1) ow] map_of_store_entry
  show "\<exists>entries' out.
               main input_dir (Some (Directory entries)) = (Inr 0, Some (Directory entries'), out) \<and>
               map_of entries' ''plates_measurement_signatures.csv'' =
                 Some (RegularFile (csv_of (sort_key barcode_key results)))"
    by blast
next
  have k: "\<forall>r \<in> set [(''200'', ''uuid2''), (''10'', ''uuid1'')]. \<exists>k. py_int (fst r) = Inr k"
  proof -
    have "py_int ''200'' = Inr 200" "py_int ''10'' = Inr 10" by code_simp+
    then show ?thesis by simp
  qed
  have o: "open_write output_path None = Inr ()"
    by (simp add: open_write_def)
  have e: "csv_of (sort_key barcode_key [(''200'', ''uuid2''), (''10'', ''uuid1'')]) =
      ''Plate_Barcode,Measurement_Signature'' @ [CR, LF] @
      ''10,uuid1'' @ [CR, LF] @ ''200,uuid2'' @ [CR, LF]"
    by code_simp
  from save_results_to_csv_Inr[OF k o]
  show "save_results_to_csv [(''200'', ''uuid2''), (''10'', ''uuid1'')] output_path None =
           (Inr (),
            Some (RegularFile (''Plate_Barcode,Measurement_Signature'' @ [CR, LF] @
                               ''10,uuid1'' @ [CR, LF] @ ''200,uuid2'' @ [CR, LF])),
            [''Results saved to: '' @ output_path])"
    unfolding e .
qed

theorem save_results_to_csv_sorted_witness:
  "py_int ''200'' = Inr 200 \<and> py_int ''10'' = Inr 10 \<and> py_int ''9'' = Inr 9 \<and>
   save_results_to_csv [(''200'', ''uuid2''), (''10'', ''uuid1'')]
       ''data/plates_measurement_signatures.csv'' None
     = (Inr (),
        Some (RegularFile (''Plate_Barcode,Measurement_Signature'' @ [CR, LF] @
                           ''10,uuid1'' @ [CR, LF] @ ''200,uuid2'' @ [CR, LF])),
        [''Results saved to: data/plates_measurement_signatures.csv'']) \<and>
   process_indexfiles_directory ''data''
       (Directory [(''10__A'', Directory [(''indexfile.txt'', RegularFile example_indexfile)]),
                   (''9__B'', Directory [(''indexfile.txt'', RegularFile example_indexfile)])])
     = Inr ([(''10'', ''abc12345-1111-2222-3333-444455556666''),
             (''9'', ''abc12345-1111-2222-3333-444455556666'')],
            [''Processed: 10 -> abc12345-1111-2222-3333-444455556666'',
             ''Processed: 9 -> abc12345-1111-2222-3333-444455556666'']) \<and>
   (\<exists>entries' out.
      main ''data''
        (Some (Directory [(''10__A'', Directory [(''indexfile.txt'', RegularFile example_indexfile)]),
                          (''9__B'', Directory [(''indexfile.txt'', RegularFile example_indexfile)])]))
        = (Inr 0, Some (Directory entries'), out) \<and>
      map_of entries' ''plates_measurement_signatures.csv'' =
        Some (RegularFile (''Plate_Barcode,Measurement_Signature'' @ [CR, LF] @
                           ''9,abc12345-1111-2222-3333-444455556666'' @ [CR, LF] @
                           ''10,abc12345-1111-2222-3333-444455556666'' @ [CR, LF])))"
proof -
  let ?U = "''abc12345-1111-2222-3333-444455556666''"
  let ?R1 = "[(''200'', ''uuid2''), (''10'', ''uuid1'')]"
  let ?R2 = "[(''10'', ?U), (''9'', ?U)]"
  let ?E = "[(''10__A'', Directory [(''indexfile.txt'', RegularFile example_indexfile)]),
             (''9__B'', Directory [(''indexfile.txt'', RegularFile example_indexfile)])]"
  let ?P = "[''Processed: 10 -> abc12345-1111-2222-3333-444455556666'',
             ''Processed: 9 -> abc12345-1111-2222-3333-444455556666'']"
  let ?path = "''data/plates_measurement_signatures.csv''"
  have k: "py_int ''200'' = Inr 200" "py_int ''10'' = Inr 10" "py_int ''9'' = Inr 9"
    by code_simp+
  have h1: "\<forall>r \<in> set ?R1. \<exists>k. py_int (fst r) = Inr k"
    using k by simp
  have h2: "\<forall>r \<in> set ?R2. \<exists>k. py_int (fst r) = Inr k"
    using k by simp
  have o: "open_write ?path None = Inr ()"
    by (simp add: open_write_def)
  have j: "joinpath ''data'' ''plates_measurement_signatures.csv'' = ?path"
    by (simp add: joinpath_def)
  have p: "process_indexfiles_directory ''data'' (Directory ?E) = Inr (?R2, ?P)"
    by code_simp
  have e1: "csv_of (sort_key barcode_key ?R1) =
      ''Plate_Barcode,Measurement_Signature'' @ [CR, LF] @
      ''10,uuid1'' @ [CR, LF] @ ''200,uuid2'' @ [CR, LF]"
    by code_simp
  have e2: "csv_of (sort_key barcode_key ?R2) =
      ''Plate_Barcode,Measurement_Signature'' @ [CR, LF] @
      ''9,abc12345-1111-2222-3333-444455556666'' @ [CR, LF] @
      ''10,abc12345-1111-2222-3333-444455556666'' @ [CR, LF]"
    by code_simp
  from save_results_to_csv_sorted[OF h1 o]
  have "save_results_to_csv ?R1 ?path None =
           (Inr (), Some (RegularFile (csv_of (sort_key barcode_key ?R1))),
            [''Results saved to: '' @ ?path])"
    by (rule conjunct1)
  then have c1: "save_results_to_csv ?R1 ?path None
     = (Inr (),
        Some (RegularFile (''Plate_Barcode,Measurement_Signature'' @ [CR, LF] @
                           ''10,uuid1'' @ [CR, LF] @ ''200,uuid2'' @ [CR, LF])),
        [''Results saved to: data/plates_measurement_signatures.csv''])"
    unfolding e1 by simp
  have m: "map_of ?E ''plates_measurement_signatures.csv'' = None"
    by simp
  have hyp: "?path = joinpath ''data'' ''plates_measurement_signatures.csv'' \<and>
          None = map_of ?E ''plates_measurement_signatures.csv'' \<and>
          ?R2 \<noteq> [] \<and>
          process_indexfiles_directory ''data'' (Directory ?E) = Inr (?R2, ?P)"
    using j m p by simp
  from save_results_to_csv_sorted[OF h2 o, where input_dir = "''data''" and entries = ?E and printed = ?P]
    hyp
  have "\<exists>entries' out.
               main ''data'' (Some (Directory ?E)) = (Inr 0, Some (Directory entries'), out) \<and>
               map_of entries' ''plates_measurement_signatures.csv'' =
                 Some (RegularFile (csv_of (sort_key barcode_key ?R2)))"
    by blast
  then have c2: "\<exists>entries' out.
      main ''data'' (Some (Directory ?E)) = (Inr 0, Some (Directory entries'), out) \<and>
      map_of entries' ''plates_measurement_signatures.csv'' =
        Some (RegularFile (''Plate_Barcode,Measurement_Signature'' @ [CR, LF] @
                           ''9,abc12345-1111-2222-3333-444455556666'' @ [CR, LF] @
                           ''10,abc12345-1111-2222-3333-444455556666'' @ [CR, LF]))"
    unfolding e2 .
  show ?thesis
    by (intro conjI; fact)
qed

section \<open>Reading the written CSV back\<close>

lemma csv_field_plain: "\<not> list_ex csv_special f \<Longrightarrow> csv_field f = f"
  by (simp add: csv_field_def)

lemma reader_step_plain:
  assumes "\<not> csv_special c" "mode = StartRecord \<or> mode = StartField \<or> mode = InField"
  shows "reader_step (mode, field, row, rows) c = (InField, field @ [c], row, rows)"
  using assms by (auto simp: reader_step_def plain_step_def csv_special_def)

lemma reader_field_plain:
  assumes "\<not> list_ex csv_special f" "mode = StartRecord \<or> mode = StartField \<or> mode = InField"
  shows "foldl reader_step (mode, field, row, rows) f =
           (if f = [] then mode else InField, field @ f, row, rows)"
  using assms
proof (induction f arbitrary: mode field)
  case Nil
  then show ?case by simp
next
  case (Cons c f)
  from Cons.prems have c: "\<not> csv_special c" and f: "\<not> list_ex csv_special f" by simp_all
  have "foldl reader_step (mode, field, row, rows) (c # f) =
          foldl reader_step (InField, field @ [c], row, rows) f"
    using reader_step_plain[OF c Cons.prems(2)] by simp
  also have "\<dots> = (if f = [] then InField else InField, (field @ [c]) @ f, row, rows)"
    by (rule Cons.IH[OF f]) simp
  finally show ?case by simp
qed

lemma reader_step_comma:
  assumes "mode = StartRecord \<or> mode = StartField \<or> mode = InField"
  shows "reader_step (mode, field, row, rows) CHR '','' = (StartField, [], row @ [field], rows)"
  using assms by (auto simp: reader_step_def plain_step_def)

lemma reader_step_CR:
  assumes "mode = StartField \<or> mode = InField"
  shows "reader_step (mode, field, row, rows) CR = (AfterCR, [], [], rows @ [row @ [field]])"
  using assms by (auto simp: reader_step_def plain_step_def)

lemma reader_step_LF: "reader_step (AfterCR, field, row, rows) LF = (StartRecord, [], [], rows)"
  by (simp add: reader_step_def)

lemma reader_row:
  assumes "\<not> list_ex csv_special b" "\<not> list_ex csv_special s" "b \<noteq> []" "s \<noteq> []"
  shows "foldl reader_step (StartRecord, [], [], rows) (writerow [b, s]) =
           (StartRecord, [], [], rows @ [[b, s]])"
proof -
  have w: "writerow [b, s] = b @ '','' @ s @ [CR, LF]"
    using assms by (simp add: writerow_def csv_field_plain)
  have 1: "foldl reader_step (StartRecord, [], [], rows) b = (InField, b, [], rows)"
    using reader_field_plain[OF assms(1), of StartRecord "[]" "[]" rows] assms(3) by simp
  have 2: "reader_step (InField, b, [], rows) CHR '','' = (StartField, [], [b], rows)"
    using reader_step_comma[of InField b "[]" rows] by simp
  have 3: "foldl reader_step (StartField, [], [b], rows) s = (InField, s, [b], rows)"
    using reader_field_plain[OF assms(2), of StartField "[]" "[b]" rows] assms(4) by simp
  have 4: "reader_step (InField, s, [b], rows) CR = (AfterCR, [], [], rows @ [[b, s]])"
    using reader_step_CR[of InField s "[b]" rows] by simp
  show ?thesis
    unfolding w by (simp only: foldl_append foldl.simps 1 2 3 4 reader_step_LF)
qed

lemma reader_rows:
  assumes "\<forall>r \<in> set rs. \<not> list_ex csv_special (fst r) \<and> \<not> list_ex csv_special (snd r) \<and>
             fst r \<noteq> [] \<and> snd r \<noteq> []"
  shows "foldl reader_step (StartRecord, [], [], rows) (concat (map (\<lambda>r. writerow [fst r, snd r]) rs)) =
           (StartRecord, [], [], rows @ map (\<lambda>r. [fst r, snd r]) rs)"
  using assms
proof (induction rs arbitrary: rows)
  case Nil
  then show ?case by simp
next
  case (Cons r rs)
  from Cons.prems have
    r: "\<not> list_ex csv_special (fst r)" "\<not> list_ex csv_special (snd r)" "fst r \<noteq> []" "snd r \<noteq> []"
    and rs: "\<forall>r \<in> set rs. \<not> list_ex csv_special (fst r) \<and> \<not> list_ex csv_special (snd r) \<and>
             fst r \<noteq> [] \<and> snd r \<noteq> []"
    by simp_all
  show ?case
    by (simp add: reader_row[OF r] Cons.IH[OF rs])
qed

lemma header_plain:
  "\<not> list_ex csv_special ''Plate_Barcode''" "\<not> list_ex csv_special ''Measurement_Signature''"
  by (simp_all add: csv_special_def)

lemma csv_reader_csv_of:
  assumes "\<forall>r \<in> set rs. \<not> list_ex csv_special (fst r) \<and> \<not> list_ex csv_special (snd r) \<and>
             fst r \<noteq> [] \<and> snd r \<noteq> []"
  shows "csv_reader (csv_of rs) =
           [''Plate_Barcode'', ''Measurement_Signature''] # map (\<lambda>r. [fst r, snd r]) rs"
proof -
  have h: "foldl reader_step (StartRecord, [], [], []) (writerow [''Plate_Barcode'', ''Measurement_Signature''])
          = (StartRecord, [], [], [] @ [[''Plate_Barcode'', ''Measurement_Signature'']])"
    by (rule reader_row[OF header_plain]) simp_all
  show ?thesis
    unfolding csv_reader_def csv_of_def
    by (simp only: foldl_append h reader_rows[OF assms]) simp
qed


lemma digit_value_digit: "is_digit c \<Longrightarrow> \<exists>d. digit_value c = Some d"
proof -
  assume "is_digit c"
  then have "c \<in> set ''0123456789''" by (simp only: is_digit_def)
  then have "map_of (zip ''0123456789'' [0::nat, 1, 2, 3, 4, 5, 6, 7, 8, 9]) c \<noteq> None"
    by (subst map_of_zip_is_None) simp_all
  then show ?thesis by (auto simp: digit_value_def)
qed

lemma scan_digits_digits:
  assumes "list_all is_digit cs"
  shows "\<exists>n. scan_digits False k acc cs = Some (k + length cs, n, [])"
  using assms
proof (induction cs arbitrary: k acc)
  case Nil
  then show ?case by simp
next
  case (Cons c cs)
  from Cons.prems have "is_digit c" by simp
  then obtain d where d: "digit_value c = Some d" using digit_value_digit by blast
  from Cons.prems have "list_all is_digit cs" by simp
  from Cons.IH[OF this, of "Suc k" "10 * acc + d"] d show ?case by simp
qed

lemma digit_not_blank: "is_digit c \<Longrightarrow> \<not> is_int_blank c"
proof
  assume "is_digit c" "is_int_blank c"
  then have "c \<in> set ''0123456789'' \<inter>
      set [CHR 0x09, CHR 0x0A, CHR 0x0B, CHR 0x0C, CHR 0x0D, CHR 0x20, CHR 0x85, CHR 0xA0]"
    by (simp only: is_digit_def is_int_blank_def Int_iff)
  moreover have "set ''0123456789'' \<inter>
      set [CHR 0x09, CHR 0x0A, CHR 0x0B, CHR 0x0C, CHR 0x0D, CHR 0x20, CHR 0x85, CHR 0xA0] = {}"
    by simp
  ultimately show False by blast
qed

lemma digit_not_sign: "is_digit c \<Longrightarrow> c \<noteq> CHR ''-'' \<and> c \<noteq> CHR ''+'' \<and> c \<noteq> CHR ''_''"
proof -
  assume "is_digit c"
  then have "c \<in> set ''0123456789''" by (simp only: is_digit_def)
  moreover have "CHR ''-'' \<notin> set ''0123456789''" "CHR ''+'' \<notin> set ''0123456789''"
    "CHR ''_'' \<notin> set ''0123456789''" by simp_all
  ultimately show ?thesis by blast
qed

lemma digit_not_special: "is_digit c \<Longrightarrow> \<not> csv_special c"
proof
  assume "is_digit c" "csv_special c"
  then have "c \<in> set ''0123456789'' \<inter> set [CHR '','', CHR 0x22, CR, LF]"
    by (simp add: is_digit_def csv_special_def del: set_simps) auto
  moreover have "set ''0123456789'' \<inter> set [CHR '','', CHR 0x22, CR, LF] = {}"
    by simp
  ultimately show False by blast
qed

lemma uuid_char_not_special:
  assumes "c \<in> set ''0123456789abcdef-''"
  shows "\<not> csv_special c"
proof
  assume "csv_special c"
  then have "c \<in> set [CHR '','', CHR 0x22, CR, LF]"
    by (auto simp: csv_special_def)
  with assms have "c \<in> set ''0123456789abcdef-'' \<inter> set [CHR '','', CHR 0x22, CR, LF]"
    by (simp only: Int_iff)
  moreover have "set ''0123456789abcdef-'' \<inter> set [CHR '','', CHR 0x22, CR, LF] = {}"
    by simp
  ultimately show False by blast
qed

lemma py_int_scan:
  assumes "b \<noteq> []" "list_all is_digit b"
  shows "\<exists>n. py_int b =
           (if length b > 4300 then
              Inl (ValueError
                (''Exceeds the limit (4300 digits) for integer string conversion: value has '' @
                 str_nat (length b) @
                 '' digits; use sys.set_int_max_str_digits() to increase the limit''))
            else Inr (int n))"
proof -
  obtain c cs where b: "b = c # cs" using assms(1) by (cases b) auto
  with assms(2) have "is_digit c" by simp
  then have sg: "c \<noteq> CHR ''-''" "c \<noteq> CHR ''+''" "c \<noteq> CHR ''_''" and nb: "\<not> is_int_blank c"
    using digit_not_sign digit_not_blank by blast+
  have 1: "dropWhile is_int_blank b = b"
    using nb by (simp add: b)
  from scan_digits_digits[OF assms(2), of 0 0]
  obtain n where n: "scan_digits False 0 0 b = Some (length b, n, [])" by auto
  have "py_int b =
           (if length b > 4300 then
              Inl (ValueError
                (''Exceeds the limit (4300 digits) for integer string conversion: value has '' @
                 str_nat (length b) @
                 '' digits; use sys.set_int_max_str_digits() to increase the limit''))
            else Inr (int n))"
    unfolding py_int_def 1 Let_def
    using sg n by (simp add: b del: scan_digits.simps str_nat.simps)
  then show ?thesis ..
qed

lemma py_int_digits:
  assumes "b \<noteq> []" "list_all is_digit b" "length b \<le> 4300"
  shows "\<exists>k. py_int b = Inr k"
  using py_int_scan[OF assms(1,2)] assms(3) by (auto simp del: str_nat.simps)

lemma py_int_long_digits:
  assumes "list_all is_digit b" "length b > 4300"
  shows "py_int b =
           Inl (ValueError
                (''Exceeds the limit (4300 digits) for integer string conversion: value has '' @
                 str_nat (length b) @
                 '' digits; use sys.set_int_max_str_digits() to increase the limit''))"
proof -
  from assms(2) have "b \<noteq> []" by auto
  from py_int_scan[OF this assms(1)] assms(2) show ?thesis by (auto simp del: str_nat.simps)
qed

lemma uuid_plain: "uuid_shaped s \<Longrightarrow> \<not> list_ex csv_special s"
  using uuid_shaped_chars uuid_char_not_special by (auto simp: list_ex_iff)

lemma digits_plain: "list_all is_digit b \<Longrightarrow> \<not> list_ex csv_special b"
  using digit_not_special by (auto simp: list_ex_iff list_all_iff)

text \<open>
  Claim C9, corrected. For a result collection whose barcodes are non-empty strings of at
  most 4300 decimal digits and whose signatures are in UUID form (and an output file that
  can be opened), \<open>save_results_to_csv\<close> writes a CSV from which the reader reads, after the
  header row, the pairs of the collection again: the same pairs with the same
  multiplicities, in the order in which they were written, which is the order of the
  integer values of the barcodes.
\<close>
theorem save_results_to_csv_round_trip:
  assumes "\<forall>r \<in> set results. fst r \<noteq> [] \<and> list_all is_digit (fst r) \<and>
             length (fst r) \<le> 4300 \<and> uuid_shaped (snd r)"
    and "open_write output_path target = Inr ()"
  shows "\<exists>content.
           save_results_to_csv results output_path target =
             (Inr (), Some (RegularFile content), [''Results saved to: '' @ output_path]) \<and>
           hd (csv_reader content) = [''Plate_Barcode'', ''Measurement_Signature''] \<and>
           tl (csv_reader content) = map (\<lambda>r. [fst r, snd r]) (sort_key barcode_key results) \<and>
           map (\<lambda>row. (row ! 0, row ! 1)) (tl (csv_reader content)) = sort_key barcode_key results \<and>
           set (map (\<lambda>row. (row ! 0, row ! 1)) (tl (csv_reader content))) = set results \<and>
           mset (map (\<lambda>row. (row ! 0, row ! 1)) (tl (csv_reader content))) = mset results \<and>
           sorted (map barcode_key (map (\<lambda>row. (row ! 0, row ! 1)) (tl (csv_reader content))))"
proof -
  let ?sorted = "sort_key barcode_key results"
  have k: "\<forall>r \<in> set results. \<exists>k. py_int (fst r) = Inr k"
    using assms(1) py_int_digits by blast
  have s: "save_results_to_csv results output_path target =
             (Inr (), Some (RegularFile (csv_of ?sorted)), [''Results saved to: '' @ output_path])"
    using k assms(2) by (rule save_results_to_csv_Inr)
  have p: "\<forall>r \<in> set ?sorted. \<not> list_ex csv_special (fst r) \<and> \<not> list_ex csv_special (snd r) \<and>
             fst r \<noteq> [] \<and> snd r \<noteq> []"
    using assms(1) digits_plain uuid_plain uuid_shaped_nonempty by auto
  have r: "csv_reader (csv_of ?sorted) =
             [''Plate_Barcode'', ''Measurement_Signature''] # map (\<lambda>r. [fst r, snd r]) ?sorted"
    using p by (rule csv_reader_csv_of)
  have "map (\<lambda>row. (row ! 0, row ! 1)) (map (\<lambda>r. [fst r, snd r]) ?sorted) = ?sorted"
    by (simp add: comp_def)
  then have b: "map (\<lambda>row. (row ! 0, row ! 1)) (tl (csv_reader (csv_of ?sorted))) = ?sorted"
    by (simp only: r list.sel)
  have h: "hd (csv_reader (csv_of ?sorted)) = [''Plate_Barcode'', ''Measurement_Signature'']"
    and t: "tl (csv_reader (csv_of ?sorted)) = map (\<lambda>r. [fst r, snd r]) ?sorted"
    by (simp_all only: r list.sel)
  have b1: "set (map (\<lambda>row. (row ! 0, row ! 1)) (tl (csv_reader (csv_of ?sorted)))) = set results"
    by (simp only: b set_sort)
  have b2: "mset (map (\<lambda>row. (row ! 0, row ! 1)) (tl (csv_reader (csv_of ?sorted)))) = mset results"
    by (simp only: b mset_sort)
  have b3: "sorted (map barcode_key (map (\<lambda>row. (row ! 0, row ! 1)) (tl (csv_reader (csv_of ?sorted)))))"
    by (simp only: b sorted_sort_key)
  from s h t b b1 b2 b3 show ?thesis by blast
qed

theorem save_results_to_csv_round_trip_witness:
  "list_all is_digit ''200'' \<and> list_all is_digit ''10'' \<and>
   uuid_shaped ''00000000-0000-0000-0000-000000000001'' \<and>
   uuid_shaped ''abc12345-1111-2222-3333-444455556666'' \<and>
   (\<exists>content.
      save_results_to_csv
          [(''200'', ''00000000-0000-0000-0000-000000000001''),
           (''10'', ''abc12345-1111-2222-3333-444455556666'')]
          ''data/plates_measurement_signatures.csv'' (Some (RegularFile ''old''))
        = (Inr (), Some (RegularFile content),
           [''Results saved to: '' @ ''data/plates_measurement_signatures.csv'']) \<and>
      hd (csv_reader content) = [''Plate_Barcode'', ''Measurement_Signature''] \<and>
      map (\<lambda>row. (row ! 0, row ! 1)) (tl (csv_reader content)) =
        [(''10'', ''abc12345-1111-2222-3333-444455556666''),
         (''200'', ''00000000-0000-0000-0000-000000000001'')] \<and>
      set (map (\<lambda>row. (row ! 0, row ! 1)) (tl (csv_reader content))) =
        set [(''200'', ''00000000-0000-0000-0000-000000000001''),
             (''10'', ''abc12345-1111-2222-3333-444455556666'')])"
proof -
  let ?U1 = "''abc12345-1111-2222-3333-444455556666''"
  let ?U2 = "''00000000-0000-0000-0000-000000000001''"
  let ?R = "[(''200'', ?U2), (''10'', ?U1)]"
  let ?path = "''data/plates_measurement_signatures.csv''"
  have d: "list_all is_digit ''200''" "list_all is_digit ''10''"
    by (simp_all add: is_digit_def)
  have u: "uuid_shaped ?U2" "uuid_shaped ?U1"
    by (simp_all add: uuid_shaped_def lower_hex_def)
  have h: "\<forall>r \<in> set ?R. fst r \<noteq> [] \<and> list_all is_digit (fst r) \<and>
             length (fst r) \<le> 4300 \<and> uuid_shaped (snd r)"
    using d u by simp
  have o: "open_write ?path (Some (RegularFile ''old'')) = Inr ()"
    by (simp add: open_write_def)
  have e: "sort_key barcode_key ?R = [(''10'', ?U1), (''200'', ?U2)]"
    by code_simp
  from save_results_to_csv_round_trip[OF h o]
  obtain content where
    c: "save_results_to_csv ?R ?path (Some (RegularFile ''old'')) =
          (Inr (), Some (RegularFile content), [''Results saved to: '' @ ?path])"
       "hd (csv_reader content) = [''Plate_Barcode'', ''Measurement_Signature'']"
       "map (\<lambda>row. (row ! 0, row ! 1)) (tl (csv_reader content)) = sort_key barcode_key ?R"
       "set (map (\<lambda>row. (row ! 0, row ! 1)) (tl (csv_reader content))) = set ?R"
    by blast
  from c(3) e have c3: "map (\<lambda>row. (row ! 0, row ! 1)) (tl (csv_reader content)) =
      [(''10'', ?U1), (''200'', ?U2)]"
    by (rule trans)
  have ex: "\<exists>content.
      save_results_to_csv ?R ?path (Some (RegularFile ''old''))
        = (Inr (), Some (RegularFile content), [''Results saved to: '' @ ?path]) \<and>
      hd (csv_reader content) = [''Plate_Barcode'', ''Measurement_Signature''] \<and>
      map (\<lambda>row. (row ! 0, row ! 1)) (tl (csv_reader content)) = [(''10'', ?U1), (''200'', ?U2)] \<and>
      set (map (\<lambda>row. (row ! 0, row ! 1)) (tl (csv_reader content))) = set ?R"
    by (rule exI[of _ content]) (intro conjI c(1) c(2) c3 c(4))
  show ?thesis by (intro conjI d u ex)
qed

text \<open>
  A barcode of 4301 digits is a digit string, and \<open>int\<close> refuses it: the interpreter
  converts no decimal string of more than 4300 digits (the default of
  \<open>sys.set_int_max_str_digits\<close>). For a collection that holds such a barcode
  \<open>save_results_to_csv\<close> raises the \<open>ValueError\<close> of the limit while it sorts, writes
  nothing, and there is no CSV to read back.
\<close>
theorem save_results_to_csv_round_trip_counterexample:
  "replicate 4301 CHR ''1'' \<noteq> [] \<and>
   list_all is_digit (replicate 4301 CHR ''1'') \<and>
   uuid_shaped ''abc12345-1111-2222-3333-444455556666'' \<and>
   open_write ''data/plates_measurement_signatures.csv'' None = Inr () \<and>
   save_results_to_csv [(replicate 4301 CHR ''1'', ''abc12345-1111-2222-3333-444455556666'')]
       ''data/plates_measurement_signatures.csv'' None
     = (Inl (ValueError
          (''Exceeds the limit (4300 digits) for integer string conversion: value has 4301 '' @
           ''digits; use sys.set_int_max_str_digits() to increase the limit'')),
        None, [])"
proof -
  define b where "b = replicate 4301 CHR ''1''"
  have n: "b \<noteq> []" by (simp add: b_def)
  have d: "list_all is_digit b"
    by (simp add: b_def list_all_iff is_digit_def)
  have l: "length b = 4301" by (simp add: b_def)
  have u: "uuid_shaped ''abc12345-1111-2222-3333-444455556666''"
    by (simp add: uuid_shaped_def lower_hex_def)
  have o: "open_write ''data/plates_measurement_signatures.csv'' None = Inr ()"
    by (simp add: open_write_def)
  have t: "str_nat 4301 = ''4301''" by code_simp
  have "py_int b =
      Inl (ValueError
        (''Exceeds the limit (4300 digits) for integer string conversion: value has '' @
         str_nat (length b) @
         '' digits; use sys.set_int_max_str_digits() to increase the limit''))"
    using d by (rule py_int_long_digits) (simp add: l)
  then have p: "py_int b =
      Inl (ValueError
          (''Exceeds the limit (4300 digits) for integer string conversion: value has 4301 '' @
           ''digits; use sys.set_int_max_str_digits() to increase the limit''))"
    unfolding l t by simp
  have s: "save_results_to_csv [(b, ''abc12345-1111-2222-3333-444455556666'')]
       ''data/plates_measurement_signatures.csv'' None
     = (Inl (ValueError
          (''Exceeds the limit (4300 digits) for integer string conversion: value has 4301 '' @
           ''digits; use sys.set_int_max_str_digits() to increase the limit'')),
        None, [])"
    unfolding save_results_to_csv_def sorted_by_int_def
    by (simp add: p)
  show ?thesis
    using n d u o s unfolding b_def by (intro conjI)
qed

end
